theory Spec2Isabelle
  imports Complex_Main
begin

section \<open>Strings\<close>

text \<open>
  Texts are lists of code units. The program only inspects ASCII punctuation, digits and
  white space, so a code unit is a \<^typ>\<open>char\<close>; the white space of \<^verbatim>\<open>String.prototype.trim\<close>
  and of the regular expression class \<^verbatim>\<open>\s\<close> is, among the code units below 256, the six ASCII
  controls and blanks and the no-break space.
\<close>

fun startsWith :: "string \<Rightarrow> string \<Rightarrow> bool" where
  "startsWith s [] = True"
| "startsWith [] (p # ps) = False"
| "startsWith (c # cs) (p # ps) = (c = p \<and> startsWith cs ps)"

definition endsWith :: "string \<Rightarrow> string \<Rightarrow> bool" where
  "endsWith s p = startsWith (rev s) (rev p)"

fun includes_str :: "string \<Rightarrow> string \<Rightarrow> bool" where
  "includes_str [] p = (p = [])"
| "includes_str (c # cs) p = (startsWith (c # cs) p \<or> includes_str cs p)"

definition is_digit :: "char \<Rightarrow> bool" where
  "is_digit c = (c \<in> set ''0123456789'')"

definition is_space :: "char \<Rightarrow> bool" where
  "is_space c = (c \<in> {CHR 0x09, CHR 0x0A, CHR 0x0B, CHR 0x0C, CHR 0x0D, CHR 0x20, CHR 0xA0})"

definition trim :: "string \<Rightarrow> string" where
  "trim s = rev (dropWhile is_space (rev (dropWhile is_space s)))"

section \<open>Exceptions\<close>

text \<open>
  \<^verbatim>\<open>exceptions.ts\<close> declares \<^verbatim>\<open>ApplicationException\<close> and its subclass
  \<^verbatim>\<open>UnauthenticatedSessionException\<close>; every other value that the program can throw (an
  error of the HTTP client, a \<^verbatim>\<open>TypeError\<close> of the runtime) is an \<open>Error\<close> with its message.
\<close>

datatype exn =
    ApplicationException string
  | UnauthenticatedSessionException
  | Error string

text \<open>The message that the handlers read: \<^verbatim>\<open>error instanceof Error ? error.message : String(error)\<close>.\<close>

fun message :: "exn \<Rightarrow> string" where
  "message (ApplicationException m) = m"
| "message UnauthenticatedSessionException =
     ''Sess'' @ [CHR 0xC3, CHR 0xA3] @ ''o n'' @ [CHR 0xC3, CHR 0xA3] @ ''o autenticada ou expirada.''"
| "message (Error m) = m"

text \<open>\<^verbatim>\<open>error instanceof ApplicationException\<close> holds for the class and for its subclass.\<close>

fun instanceof_ApplicationException :: "exn \<Rightarrow> bool" where
  "instanceof_ApplicationException (ApplicationException m) = True"
| "instanceof_ApplicationException UnauthenticatedSessionException = True"
| "instanceof_ApplicationException (Error m) = False"

section \<open>The HTTP client\<close>

text \<open>
  One row of the listing as the selectors of \<^verbatim>\<open>buscar_nfse\<close> see it: the \<^verbatim>\<open>href\<close> attributes of
  the anchors below the row, in document order, the text of each selected cell and the
  \<^verbatim>\<open>data-situacao\<close> attribute.
\<close>

record row =
  anchors :: "string list"
  td_data :: string
  div_text :: string
  cnpj_text :: string
  td_competencia :: string
  td_center :: string
  td_valor :: string
  data_situacao :: "string option"

text \<open>The body of a response: a document whose table rows are given, or a payload on which
  the HTML parser raises.\<close>

datatype body = Html "row list" | Unparsable string

record response =
  status_code :: int
  responseUrl :: "string option"
  location :: "string option"
  set_cookie :: "string list option"
  payload :: body

text \<open>What the network does with one request: no response at all, or a response.\<close>

datatype http_outcome = NetworkFailure string | Response response

definition validateStatus :: "int \<Rightarrow> bool" where
  "validateStatus status = (status \<ge> 200 \<and> status < 400)"

text \<open>The decimal numeral of a number.\<close>

fun show_nat :: "nat \<Rightarrow> string" where
  "show_nat n =
     (if n < 10 then [''0123456789'' ! n]
      else show_nat (n div 10) @ [''0123456789'' ! (n mod 10)])"

text \<open>
  \<^verbatim>\<open>axios.get\<close> with \<^verbatim>\<open>maxRedirects: 0\<close> and the \<^verbatim>\<open>validateStatus\<close> of the source: the promise
  is rejected when the request fails and when \<^verbatim>\<open>validateStatus\<close> refuses the status, and is
  resolved with the response otherwise.
\<close>

definition axios_get :: "http_outcome \<Rightarrow> exn + response" where
  "axios_get oc =
     (case oc of
        NetworkFailure msg \<Rightarrow> Inl (Error msg)
      | Response r \<Rightarrow>
          if validateStatus (status_code r) then Inr r
          else Inl (Error (''Request failed with status code '' @ show_nat (nat (status_code r)))))"

definition login_path :: string where
  "login_path = ''/EmissorNacional/Login''"

definition dashboard_path :: string where
  "dashboard_path = ''/EmissorNacional/Dashboard''"

definition checkAuthentication :: "response \<Rightarrow> exn + unit" where
  "checkAuthentication r =
     (let url = (case responseUrl r of None \<Rightarrow> [] | Some u \<Rightarrow> u) in
      if includes_str url login_path then Inl UnauthenticatedSessionException
      else
        (case location r of
           None \<Rightarrow> Inr ()
         | Some l \<Rightarrow>
             if l \<noteq> [] \<and> includes_str l login_path then Inl UnauthenticatedSessionException
             else Inr ()))"

section \<open>The authenticator\<close>

text \<open>
  \<^verbatim>\<open>login(cert, password)\<close>. The first argument is the portal's certificate endpoint: the outcome
  of the request made with that certificate and passphrase.
\<close>

definition login :: "(string \<Rightarrow> string \<Rightarrow> http_outcome) \<Rightarrow> string \<Rightarrow> string \<Rightarrow> exn + string list" where
  "login endpoint cert password =
     (case axios_get (endpoint cert password) of
        Inl e \<Rightarrow> Inl (ApplicationException (''Falha ao realizar login: '' @ message e))
      | Inr r \<Rightarrow>
          (case location r of
             None \<Rightarrow>
               Inl (ApplicationException
                 ''Falha ao realizar login: Redirecionamento incorreto ou ausente.'')
           | Some l \<Rightarrow>
               if l = [] \<or> \<not> endsWith l dashboard_path
               then Inl (ApplicationException
                 ''Falha ao realizar login: Redirecionamento incorreto ou ausente.'')
               else (case set_cookie r of None \<Rightarrow> Inr [] | Some cookies \<Rightarrow> Inr cookies)))"

section \<open>Dates\<close>

text \<open>
  A \<^verbatim>\<open>Date\<close> holds a time value: a whole number of milliseconds since the epoch, at most
  8.64e15 in absolute value, or \<^verbatim>\<open>NaN\<close> for an invalid date (\<open>None\<close>). Such numbers are exact
  in the arithmetic of the runtime.

  The local time zone is a parameter. It gives the offset of local time from UTC at an
  instant, and the offset to be used for a local time (a local time that a transition skips
  or repeats is read with the offset before the transition). Any two such functions make a
  zone provided that moving the local date forward by whole days moves the instant forward,
  as it does in every time zone in use.
\<close>

type_synonym date = "int option"

definition msPerDay :: int where
  "msPerDay = 86400000"

definition maxTime :: int where
  "maxTime = 8640000000000000"

typedef zone =
  "{z :: (int \<Rightarrow> int) \<times> (int \<Rightarrow> int).
      \<forall>t k. 1 \<le> k \<longrightarrow> t < t + fst z t + k * msPerDay - snd z (t + fst z t + k * msPerDay)}"
  by (rule exI [of _ "(\<lambda>t. 0, \<lambda>t. 0)"]) (simp add: msPerDay_def)

definition utc_offset :: "zone \<Rightarrow> int \<Rightarrow> int" where
  "utc_offset z = fst (Rep_zone z)"

definition local_offset :: "zone \<Rightarrow> int \<Rightarrow> int" where
  "local_offset z = snd (Rep_zone z)"

definition LocalTime :: "zone \<Rightarrow> int \<Rightarrow> int" where
  "LocalTime z t = t + utc_offset z t"

definition UTC :: "zone \<Rightarrow> int \<Rightarrow> int" where
  "UTC z t = t - local_offset z t"

definition Day :: "int \<Rightarrow> int" where
  "Day t = t div msPerDay"

definition TimeWithinDay :: "int \<Rightarrow> int" where
  "TimeWithinDay t = t mod msPerDay"

definition TimeClip :: "int \<Rightarrow> date" where
  "TimeClip t = (if \<bar>t\<bar> \<le> maxTime then Some t else None)"

text \<open>\<^verbatim>\<open>new Date(d)\<close> for a date \<open>d\<close>: a copy of its time value.\<close>

definition new_Date :: "date \<Rightarrow> date" where
  "new_Date d = (case d of None \<Rightarrow> None | Some t \<Rightarrow> TimeClip t)"

text \<open>
  \<^verbatim>\<open>d.setDate(d.getDate() + k)\<close>: the local time of \<open>d\<close> is taken apart into its day and its time
  within the day, the day is moved by \<open>k\<close>, and the local time so made is turned into an
  instant and clipped to the range of the time values. An invalid date stays invalid.
\<close>

definition setDate_plus :: "zone \<Rightarrow> date \<Rightarrow> int \<Rightarrow> date" where
  "setDate_plus z d k =
     (case d of
        None \<Rightarrow> None
      | Some t \<Rightarrow>
          TimeClip (UTC z ((Day (LocalTime z t) + k) * msPerDay + TimeWithinDay (LocalTime z t))))"

text \<open>
  \<^verbatim>\<open>formatDate\<close> prints the local calendar day as \<^verbatim>\<open>DD/MM/YYYY\<close>, and \<^verbatim>\<open>NaN/NaN/NaN\<close> for an invalid
  date. The model keeps the number of the local day instead of its rendering, and \<open>None\<close> for
  \<^verbatim>\<open>NaN/NaN/NaN\<close>.
\<close>

definition formatDate :: "zone \<Rightarrow> date \<Rightarrow> int option" where
  "formatDate z d = (case d of None \<Rightarrow> None | Some t \<Rightarrow> Some (Day (LocalTime z t)))"

text \<open>The comparisons \<^verbatim>\<open>a <= b\<close> and \<^verbatim>\<open>a > b\<close> of two dates: false when either is invalid.\<close>

definition date_le :: "date \<Rightarrow> date \<Rightarrow> bool" where
  "date_le a b = (case a of None \<Rightarrow> False | Some x \<Rightarrow> (case b of None \<Rightarrow> False | Some y \<Rightarrow> x \<le> y))"

definition date_gt :: "date \<Rightarrow> date \<Rightarrow> bool" where
  "date_gt a b = (case a of None \<Rightarrow> False | Some x \<Rightarrow> (case b of None \<Rightarrow> False | Some y \<Rightarrow> x > y))"

text \<open>
  A zone with the same offset at every time; a zone whose offset is three hours behind UTC
  until 2018-11-04T03:00Z and two hours behind from then on, as in Sao Paulo when daylight
  saving began in 2018; and what it is for a zone to keep the offset \<open>c\<close> at every time that a
  crawl from \<open>s\<close> to \<open>e\<close> reads.
\<close>

definition fixed_zone :: "int \<Rightarrow> zone" where
  "fixed_zone c = Abs_zone (\<lambda>t. c, \<lambda>t. c)"

definition sao_paulo_2018 :: zone where
  "sao_paulo_2018 =
     Abs_zone (\<lambda>t. if t < 1541300400000 then - 10800000 else - 7200000,
               \<lambda>t. if t < 1541300400000 - 7200000 then - 10800000 else - 7200000)"

definition steady :: "zone \<Rightarrow> int \<Rightarrow> int \<Rightarrow> int \<Rightarrow> bool" where
  "steady z c s e =
     ((\<forall>t. s \<le> t \<and> t \<le> e \<longrightarrow> utc_offset z t = c)
      \<and> (\<forall>t. s + c \<le> t \<and> t \<le> e + c + 29 * msPerDay \<longrightarrow> local_offset z t = c))"

section \<open>The listing crawler\<close>

record EmitidoPara =
  cnpj :: string
  nome :: string

text \<open>
  The amount is a number of the runtime: not a number, an infinity, or a finite value. A
  finite value is kept exactly, as the rational that the decimal text denotes, and the sign
  of zero is not kept; the runtime rounds the value to the nearest double (to an infinity
  beyond the range of the doubles), which changes nothing when the value is a double already.
\<close>

datatype jsnumber = NaN | Infinity bool | Finite rat

record NfseListItem =
  data :: string
  emitidoPara :: EmitidoPara
  competencia :: string
  municipioEmissor :: string
  valor :: jsnumber
  status :: string
  chave :: string

definition download_prefix :: string where
  "download_prefix = ''/EmissorNacional/Notas/Download/NFSe/''"

text \<open>
  \<^verbatim>\<open>href.match(/\/EmissorNacional\/Notas\/Download\/NFSe\/(\d+)/)\<close>: the leftmost place of
  the text where the prefix is followed by a digit, and there the longest run of digits;
  the result is the captured group.
\<close>

fun regex_match :: "string \<Rightarrow> string option" where
  "regex_match [] = None"
| "regex_match (c # cs) =
     (if startsWith (c # cs) download_prefix
         \<and> takeWhile is_digit (drop (length download_prefix) (c # cs)) \<noteq> []
      then Some (takeWhile is_digit (drop (length download_prefix) (c # cs)))
      else regex_match cs)"

text \<open>\<^verbatim>\<open>s.replace(pattern, replacement)\<close> with a text pattern: the first occurrence only.\<close>

fun replace_first :: "string \<Rightarrow> string \<Rightarrow> string \<Rightarrow> string" where
  "replace_first [] p r = (if p = [] then r else [])"
| "replace_first (c # cs) p r =
     (if startsWith (c # cs) p then r @ drop (length p) (c # cs)
      else c # replace_first cs p r)"

text \<open>\<^verbatim>\<open>s.replace(/\s+/g, ' ')\<close>.\<close>

function collapse_spaces :: "string \<Rightarrow> string" where
  "collapse_spaces [] = []"
| "collapse_spaces (c # cs) =
     (if is_space c then CHR '' '' # collapse_spaces (dropWhile is_space cs)
      else c # collapse_spaces cs)"
  by pat_completeness auto
termination
  by (relation "measure length") (auto simp: length_dropWhile_le less_Suc_eq_le)

definition digit_value :: "char \<Rightarrow> nat" where
  "digit_value c = of_char c - 48"

definition decimal :: "string \<Rightarrow> nat" where
  "decimal ds = foldl (\<lambda>n c. 10 * n + digit_value c) 0 ds"

definition pow10 :: "int \<Rightarrow> rat" where
  "pow10 e = (if e \<ge> 0 then 10 ^ nat e else 1 / 10 ^ nat (- e))"

text \<open>The exponent part of a decimal literal, when the text starts with a well-formed one.\<close>

definition exponent_part :: "string \<Rightarrow> int" where
  "exponent_part s =
     (case s of
        [] \<Rightarrow> 0
      | e # r \<Rightarrow>
          if e = CHR ''e'' \<or> e = CHR ''E'' then
            (case r of
               [] \<Rightarrow> 0
             | g # ds \<Rightarrow>
                 if g = CHR ''-'' then
                   (if takeWhile is_digit ds = [] then 0 else - int (decimal (takeWhile is_digit ds)))
                 else if g = CHR ''+'' then
                   (if takeWhile is_digit ds = [] then 0 else int (decimal (takeWhile is_digit ds)))
                 else int (decimal (takeWhile is_digit r)))
          else 0)"

text \<open>
  \<^verbatim>\<open>parseFloat\<close>: leading white space is skipped, then the longest prefix that is a decimal
  literal (sign, \<^verbatim>\<open>Infinity\<close> or digits with an optional fraction and exponent) is read; when
  there is none the result is not a number.
\<close>

definition parseFloat :: "string \<Rightarrow> jsnumber" where
  "parseFloat s =
     (let t = dropWhile is_space s;
          neg = (t \<noteq> [] \<and> hd t = CHR ''-'');
          u = (if t \<noteq> [] \<and> (hd t = CHR ''-'' \<or> hd t = CHR ''+'') then tl t else t)
      in if startsWith u ''Infinity'' then Infinity (\<not> neg)
         else
           (let ip = takeWhile is_digit u;
                r1 = dropWhile is_digit u;
                dot = (r1 \<noteq> [] \<and> hd r1 = CHR ''.'');
                fp = (if dot then takeWhile is_digit (tl r1) else []);
                r2 = (if dot then dropWhile is_digit (tl r1) else r1)
            in if ip = [] \<and> fp = [] then NaN
               else
                 (let mag = of_nat (decimal (ip @ fp)) / 10 ^ length fp * pow10 (exponent_part r2)
                  in Finite (if neg then - mag else mag))))"

text \<open>\<^verbatim>\<open>parseFloat(valorStr.replace(/\./g, '').replace(',', '.'))\<close>.\<close>

definition parse_valor :: "string \<Rightarrow> jsnumber" where
  "parse_valor valorStr =
     parseFloat (replace_first (filter (\<lambda>c. c \<noteq> CHR ''.'') valorStr) '','' ''.'')"

text \<open>The callback of \<^verbatim>\<open>rows.each\<close>: the item that a row adds to the result, if it adds one.\<close>

definition scrape_row :: "row \<Rightarrow> NfseListItem option" where
  "scrape_row tr =
     (let downloadLink = filter (\<lambda>h. includes_str h download_prefix) (anchors tr);
          href = (case downloadLink of [] \<Rightarrow> None | h # _ \<Rightarrow> Some h);
          chave =
            (case href of
               None \<Rightarrow> []
             | Some h \<Rightarrow>
                 if h = [] then []
                 else (case regex_match h of
                         None \<Rightarrow> []
                       | Some m \<Rightarrow> if m \<noteq> [] then m else []))
      in if chave = [] then None
         else
           (let dataEmissao = trim (td_data tr);
                cnpj = trim (cnpj_text tr);
                fullText = collapse_spaces (trim (div_text tr));
                nome =
                  (if cnpj \<noteq> []
                   then trim (dropWhile (\<lambda>c. is_space c \<or> c = CHR ''-'')
                               (replace_first fullText cnpj []))
                   else fullText);
                valorStr = trim (td_valor tr)
            in Some \<lparr> data = dataEmissao,
                      emitidoPara = \<lparr> cnpj = cnpj, nome = nome \<rparr>,
                      competencia = trim (td_competencia tr),
                      municipioEmissor = trim (td_center tr),
                      valor = parse_valor valorStr,
                      status = (case data_situacao tr of None \<Rightarrow> [] | Some a \<Rightarrow> a),
                      chave = chave \<rparr>))"

text \<open>\<^verbatim>\<open>cheerio.load\<close> followed by the selection of the rows of the table body.\<close>

definition cheerio_load :: "body \<Rightarrow> exn + row list" where
  "cheerio_load b = (case b of Html rows \<Rightarrow> Inr rows | Unparsable msg \<Rightarrow> Inl (Error msg))"

text \<open>
  A listing request carries the cookie header and the two formatted dates; the portal is the
  outcome of each request.
\<close>

record request =
  cookie :: string
  datainicio :: "int option"
  datafim :: "int option"

type_synonym portal = "request \<Rightarrow> http_outcome"

fun join :: "string \<Rightarrow> string list \<Rightarrow> string" where
  "join sep [] = []"
| "join sep [x] = x"
| "join sep (x # y # ys) = x @ sep @ join sep (y # ys)"

text \<open>The body of the \<^verbatim>\<open>try\<close> block of one window: the items that it appends, or what it throws.\<close>

definition fetch_chunk :: "portal \<Rightarrow> request \<Rightarrow> exn + NfseListItem list" where
  "fetch_chunk portal req =
     (case axios_get (portal req) of
        Inl e \<Rightarrow> Inl e
      | Inr response \<Rightarrow>
          (case checkAuthentication response of
             Inl e \<Rightarrow> Inl e
           | Inr _ \<Rightarrow>
               (case cheerio_load (payload response) of
                  Inl e \<Rightarrow> Inl e
                | Inr rows \<Rightarrow> Inr (List.map_filter scrape_row rows))))"

text \<open>How far a date is from passing the end: what the loop decreases.\<close>

definition remaining :: "date \<Rightarrow> date \<Rightarrow> nat" where
  "remaining currentStart end_date =
     (case currentStart of
        None \<Rightarrow> 0
      | Some t \<Rightarrow> (case end_date of None \<Rightarrow> 0 | Some e \<Rightarrow> nat (e - t + 1)))"

text \<open>
  The \<^verbatim>\<open>while\<close> loop of \<^verbatim>\<open>buscar_nfse\<close>. Its state is \<^verbatim>\<open>currentStart\<close> and the accumulator
  \<^verbatim>\<open>allNfses\<close>, together with the requests issued so far; it ends with the requests issued and
  either the exception that left the function or the returned list.
\<close>

function buscar_loop ::
  "zone \<Rightarrow> portal \<Rightarrow> string \<Rightarrow> date \<Rightarrow> date \<Rightarrow> request list \<Rightarrow> NfseListItem list
     \<Rightarrow> request list \<times> (exn + NfseListItem list)" where
  "buscar_loop z portal cookieHeader currentStart end_date issued allNfses =
     (if date_le currentStart end_date then
        (let chunkEnd =
               (if date_gt (setDate_plus z (new_Date currentStart) 29) end_date
                then new_Date end_date
                else setDate_plus z (new_Date currentStart) 29);
             req = \<lparr> cookie = cookieHeader,
                     datainicio = formatDate z currentStart,
                     datafim = formatDate z chunkEnd \<rparr>
         in case fetch_chunk portal req of
              Inl e \<Rightarrow>
                if e = UnauthenticatedSessionException then (issued @ [req], Inl e)
                else buscar_loop z portal cookieHeader (setDate_plus z (new_Date chunkEnd) 1)
                       end_date (issued @ [req]) allNfses
            | Inr items \<Rightarrow>
                buscar_loop z portal cookieHeader (setDate_plus z (new_Date chunkEnd) 1)
                  end_date (issued @ [req]) (allNfses @ items))
      else (issued, Inr allNfses))"
  by pat_completeness auto
termination
proof -
  have later: "t < u" if "setDate_plus z (Some t) k = Some u" and "1 \<le> k" for z t u k
  proof -
    have "t < t + fst (Rep_zone z) t + k * msPerDay
                - snd (Rep_zone z) (t + fst (Rep_zone z) t + k * msPerDay)"
      using Rep_zone [of z] that(2) by simp
    moreover have "(Day (LocalTime z t) + k) * msPerDay + TimeWithinDay (LocalTime z t) =
        LocalTime z t + k * msPerDay"
      by (simp add: Day_def TimeWithinDay_def algebra_simps)
    ultimately show ?thesis using that(1)
      by (simp add: setDate_plus_def TimeClip_def UTC_def LocalTime_def utc_offset_def
          local_offset_def split: if_splits)
  qed
  have dec: "remaining (setDate_plus z (new_Date chunkEnd) 1) end_date
      < remaining currentStart end_date"
    if le: "date_le currentStart end_date"
      and ce: "chunkEnd =
        (if date_gt (setDate_plus z (new_Date currentStart) 29) end_date
         then new_Date end_date
         else setDate_plus z (new_Date currentStart) 29)"
    for z currentStart end_date chunkEnd
  proof -
    obtain t e where cs: "currentStart = Some t" and en: "end_date = Some e" and te: "t \<le> e"
      using le by (auto simp: date_le_def split: option.splits)
    show ?thesis
    proof (cases "setDate_plus z (new_Date chunkEnd) 1")
      case None
      then show ?thesis using te by (simp add: remaining_def cs en)
    next
      case (Some n)
      then obtain c where c: "new_Date chunkEnd = Some c" and cn: "c < n"
        using later [of z _ 1 n] by (cases "new_Date chunkEnd") (auto simp: setDate_plus_def)
      then have chunk: "chunkEnd = Some c"
        by (auto simp: new_Date_def TimeClip_def split: option.splits if_splits)
      have "t < n"
      proof (cases "date_gt (setDate_plus z (new_Date currentStart) 29) end_date")
        case True
        then have "c = e" using ce chunk en
          by (auto simp: new_Date_def TimeClip_def split: if_splits)
        then show ?thesis using te cn by simp
      next
        case False
        then have "setDate_plus z (new_Date currentStart) 29 = Some c" using ce chunk by simp
        then have "t < c"
          using later [of z t 29 c]
          by (auto simp: cs new_Date_def TimeClip_def setDate_plus_def split: if_splits)
        then show ?thesis using cn by simp
      qed
      then show ?thesis using te Some by (simp add: remaining_def cs en)
    qed
  qed
  show ?thesis
    by (relation "measure (\<lambda>(z, portal, cookieHeader, currentStart, end_date, issued, allNfses).
          remaining currentStart end_date)")
       (use dec in auto)
qed

definition buscar_nfse ::
  "zone \<Rightarrow> portal \<Rightarrow> string list \<Rightarrow> date \<Rightarrow> date
     \<Rightarrow> request list \<times> (exn + NfseListItem list)" where
  "buscar_nfse z portal cookies data_inicio data_fim =
     buscar_loop z portal (join ''; '' cookies) (new_Date data_inicio) (new_Date data_fim) [] []"

section \<open>The loop as a traversal of its windows\<close>

text \<open>
  Devices for the proofs. \<open>chunks\<close> is the loop of \<^verbatim>\<open>buscar_nfse\<close> without its body: the pairs of
  \<^verbatim>\<open>currentStart\<close> and \<^verbatim>\<open>chunkEnd\<close> that it goes through. \<open>crawl\<close> is the body run over a given
  list of requests. The loop is shown below to be \<open>crawl\<close> over the requests of \<open>chunks\<close>.
  \<open>steps\<close> is the arithmetic that \<open>chunks\<close> comes to where the zone keeps its offset and no
  date leaves the range, and \<open>day_window\<close> is the \<open>k\<close>-th window of the days from \<open>a\<close> to \<open>b\<close>.
\<close>

definition chunk_end :: "zone \<Rightarrow> date \<Rightarrow> date \<Rightarrow> date" where
  "chunk_end z currentStart end_date =
     (if date_gt (setDate_plus z (new_Date currentStart) 29) end_date
      then new_Date end_date
      else setDate_plus z (new_Date currentStart) 29)"

function chunks :: "zone \<Rightarrow> date \<Rightarrow> date \<Rightarrow> (date \<times> date) list" where
  "chunks z currentStart end_date =
     (if date_le currentStart end_date then
        (currentStart, chunk_end z currentStart end_date)
          # chunks z (setDate_plus z (new_Date (chunk_end z currentStart end_date)) 1) end_date
      else [])"
  by pat_completeness auto
termination
proof -
  have later: "t < u" if "setDate_plus z (Some t) k = Some u" and "1 \<le> k" for z t u k
  proof -
    have "t < t + fst (Rep_zone z) t + k * msPerDay
                - snd (Rep_zone z) (t + fst (Rep_zone z) t + k * msPerDay)"
      using Rep_zone [of z] that(2) by simp
    moreover have "(Day (LocalTime z t) + k) * msPerDay + TimeWithinDay (LocalTime z t) =
        LocalTime z t + k * msPerDay"
      by (simp add: Day_def TimeWithinDay_def algebra_simps)
    ultimately show ?thesis using that(1)
      by (simp add: setDate_plus_def TimeClip_def UTC_def LocalTime_def utc_offset_def
          local_offset_def split: if_splits)
  qed
  have dec: "remaining (setDate_plus z (new_Date chunkEnd) 1) end_date
      < remaining currentStart end_date"
    if le: "date_le currentStart end_date"
      and ce: "chunkEnd =
        (if date_gt (setDate_plus z (new_Date currentStart) 29) end_date
         then new_Date end_date
         else setDate_plus z (new_Date currentStart) 29)"
    for z currentStart end_date chunkEnd
  proof -
    obtain t e where cs: "currentStart = Some t" and en: "end_date = Some e" and te: "t \<le> e"
      using le by (auto simp: date_le_def split: option.splits)
    show ?thesis
    proof (cases "setDate_plus z (new_Date chunkEnd) 1")
      case None
      then show ?thesis using te by (simp add: remaining_def cs en)
    next
      case (Some n)
      then obtain c where c: "new_Date chunkEnd = Some c" and cn: "c < n"
        using later [of z _ 1 n] by (cases "new_Date chunkEnd") (auto simp: setDate_plus_def)
      then have chunk: "chunkEnd = Some c"
        by (auto simp: new_Date_def TimeClip_def split: option.splits if_splits)
      have "t < n"
      proof (cases "date_gt (setDate_plus z (new_Date currentStart) 29) end_date")
        case True
        then have "c = e" using ce chunk en
          by (auto simp: new_Date_def TimeClip_def split: if_splits)
        then show ?thesis using te cn by simp
      next
        case False
        then have "setDate_plus z (new_Date currentStart) 29 = Some c" using ce chunk by simp
        then have "t < c"
          using later [of z t 29 c]
          by (auto simp: cs new_Date_def TimeClip_def setDate_plus_def split: if_splits)
        then show ?thesis using cn by simp
      qed
      then show ?thesis using te Some by (simp add: remaining_def cs en)
    qed
  qed
  show ?thesis
    by (relation "measure (\<lambda>(z, currentStart, end_date). remaining currentStart end_date)")
       (use dec in \<open>auto simp: chunk_end_def\<close>)
qed

definition chunk_request :: "zone \<Rightarrow> string \<Rightarrow> date \<times> date \<Rightarrow> request" where
  "chunk_request z cookieHeader w =
     \<lparr> cookie = cookieHeader, datainicio = formatDate z (fst w), datafim = formatDate z (snd w) \<rparr>"

fun crawl :: "portal \<Rightarrow> request list \<Rightarrow> request list \<Rightarrow> NfseListItem list
     \<Rightarrow> request list \<times> (exn + NfseListItem list)" where
  "crawl portal [] issued allNfses = (issued, Inr allNfses)"
| "crawl portal (req # reqs) issued allNfses =
     (case fetch_chunk portal req of
        Inl e \<Rightarrow>
          if e = UnauthenticatedSessionException then (issued @ [req], Inl e)
          else crawl portal reqs (issued @ [req]) allNfses
      | Inr items \<Rightarrow> crawl portal reqs (issued @ [req]) (allNfses @ items))"

definition chunk_items :: "portal \<Rightarrow> request \<Rightarrow> NfseListItem list" where
  "chunk_items portal req = (case fetch_chunk portal req of Inl e \<Rightarrow> [] | Inr items \<Rightarrow> items)"

definition expired :: "portal \<Rightarrow> request \<Rightarrow> bool" where
  "expired portal req = (fetch_chunk portal req = Inl UnauthenticatedSessionException)"

function steps :: "int \<Rightarrow> int \<Rightarrow> (int \<times> int) list" where
  "steps s e =
     (if s \<le> e then
        (s, min (s + 29 * msPerDay) e) # steps (min (s + 29 * msPerDay) e + msPerDay) e
      else [])"
  by pat_completeness auto
termination
  by (relation "measure (\<lambda>(s, e). nat (e - s + 1))") (auto simp: msPerDay_def)


section \<open>The nested path extractor\<close>

text \<open>
  The values that reach \<^verbatim>\<open>getNested\<close>: the trees of the XML parser (texts, sequences and
  mappings from field names to trees), \<^verbatim>\<open>null\<close> and \<^verbatim>\<open>undefined\<close>, the truth values, the numbers
  that a length is, and any other value of the runtime (a function, a prototype object),
  known by a label. A mapping lists its own fields in order.
\<close>

datatype jsvalue =
    JNull
  | JUndefined
  | JBool bool
  | JString string
  | JNumber int
  | JArray "jsvalue list"
  | JObject "(string \<times> jsvalue) list"
  | JOther string

text \<open>\<^verbatim>\<open>!v\<close> holds for \<^verbatim>\<open>null\<close>, \<^verbatim>\<open>undefined\<close>, \<^verbatim>\<open>false\<close>, the empty text and zero.\<close>

fun falsy :: "jsvalue \<Rightarrow> bool" where
  "falsy JNull = True"
| "falsy JUndefined = True"
| "falsy (JBool b) = (\<not> b)"
| "falsy (JString s) = (s = [])"
| "falsy (JNumber n) = (n = 0)"
| "falsy (JArray xs) = False"
| "falsy (JObject kvs) = False"
| "falsy (JOther l) = False"

text \<open>The index that a property name denotes on a text or a sequence: a decimal numeral
  without a superfluous leading zero.\<close>

definition array_index :: "string \<Rightarrow> nat option" where
  "array_index k =
     (if k \<noteq> [] \<and> list_all is_digit k \<and> (hd k \<noteq> CHR ''0'' \<or> length k = 1)
      then Some (decimal k) else None)"

text \<open>
  The own properties of a value: the fields of a mapping, the length and the elements of a
  sequence and of a text.
\<close>

fun own_property :: "jsvalue \<Rightarrow> string \<Rightarrow> jsvalue option" where
  "own_property (JObject kvs) part = map_of kvs part"
| "own_property (JArray xs) part =
     (if part = ''length'' then Some (JNumber (int (length xs)))
      else (case array_index part of
              None \<Rightarrow> None
            | Some i \<Rightarrow> if i < length xs then Some (xs ! i) else None))"
| "own_property (JString s) part =
     (if part = ''length'' then Some (JNumber (int (length s)))
      else (case array_index part of
              None \<Rightarrow> None
            | Some i \<Rightarrow> if i < length s then Some (JString [s ! i]) else None))"
| "own_property v part = None"

text \<open>
  The rest of a property read is the affair of the runtime, a parameter: the names of the
  members that values inherit from their prototypes, each with what the prototype chain of a
  value gives for it when it is no own property of the value (for a value of the runtime
  known by its label, its own members are among them). It gives nothing, or a value such as
  a method or a constructor, or the exception that an accessor throws.
\<close>

type_synonym prototypes = "(string \<times> (jsvalue \<Rightarrow> (exn + jsvalue) option)) list"

definition inherited_member :: "prototypes \<Rightarrow> jsvalue \<Rightarrow> string \<Rightarrow> (exn + jsvalue) option" where
  "inherited_member inherited v part =
     (case map_of inherited part of None \<Rightarrow> None | Some member \<Rightarrow> member v)"

text \<open>
  \<^verbatim>\<open>v[part]\<close>. Reading a property of \<^verbatim>\<open>null\<close> or \<^verbatim>\<open>undefined\<close> throws a \<^verbatim>\<open>TypeError\<close>; an own
  property is read first, then the prototype chain, and a name found nowhere gives
  \<^verbatim>\<open>undefined\<close>.
\<close>

definition get_property :: "prototypes \<Rightarrow> jsvalue \<Rightarrow> string \<Rightarrow> exn + jsvalue" where
  "get_property inherited v part =
     (if v = JNull then Inl (Error ''TypeError: Cannot read properties of null'')
      else if v = JUndefined then Inl (Error ''TypeError: Cannot read properties of undefined'')
      else (case own_property v part of
              Some w \<Rightarrow> Inr w
            | None \<Rightarrow>
                (case inherited_member inherited v part of
                   None \<Rightarrow> Inr JUndefined
                 | Some r \<Rightarrow> r)))"

text \<open>\<^verbatim>\<open>if (Array.isArray(current)) current = current[0]\<close>.\<close>

fun unwrap :: "jsvalue \<Rightarrow> jsvalue" where
  "unwrap (JArray []) = JUndefined"
| "unwrap (JArray (x # xs)) = x"
| "unwrap v = v"

text \<open>\<^verbatim>\<open>path.split('.')\<close>: never empty.\<close>

fun split_dots :: "string \<Rightarrow> string list" where
  "split_dots [] = [[]]"
| "split_dots (c # cs) =
     (if c = CHR ''.'' then [] # split_dots cs
      else (case split_dots cs of [] \<Rightarrow> [[c]] | p # ps \<Rightarrow> (c # p) # ps))"

text \<open>How the \<^verbatim>\<open>for\<close> loop over the parts ends: it returns from the function, it runs to its
  end with a current node, or a property read throws.\<close>

datatype flow = Returned jsvalue | Completed jsvalue | Thrown exn

fun for_parts :: "prototypes \<Rightarrow> jsvalue \<Rightarrow> string list \<Rightarrow> flow" where
  "for_parts inherited current [] = Completed current"
| "for_parts inherited current (part # parts) =
     (if current = JNull \<or> current = JUndefined then Returned JNull
      else (case get_property inherited (unwrap current) part of
              Inl e \<Rightarrow> Thrown e
            | Inr v \<Rightarrow> for_parts inherited v parts))"

definition getNested :: "prototypes \<Rightarrow> jsvalue \<Rightarrow> string \<Rightarrow> exn + jsvalue" where
  "getNested inherited obj path =
     (if falsy obj then Inr JNull
      else if path = [] then Inr obj
      else (case for_parts inherited obj (split_dots path) of
              Returned v \<Rightarrow> Inr v
            | Thrown e \<Rightarrow> Inl e
            | Completed current \<Rightarrow>
                (let current = unwrap current
                 in Inr (if current = JNull \<or> current = JUndefined then JNull else current))))"

text \<open>
  The rule of the extractor in the words of the specification, to be compared with
  \<^verbatim>\<open>getNested\<close>: at each step of the traversal the call returns null if the current node is
  null or absent, a sequence is replaced by its first element, and the node is indexed by
  the next field name; after the last field a sequence is again replaced by its first
  element, and an absent result is null. Indexing a mapping by a field name gives the field,
  or nothing when the mapping has no such field; a node that is no mapping has no fields.
\<close>

definition absent :: "jsvalue \<Rightarrow> bool" where
  "absent v = (v = JNull \<or> v = JUndefined)"

fun index_field :: "jsvalue \<Rightarrow> string \<Rightarrow> jsvalue" where
  "index_field (JObject kvs) name = (case map_of kvs name of None \<Rightarrow> JUndefined | Some v \<Rightarrow> v)"
| "index_field v name = JUndefined"

fun unwrap_then_index :: "jsvalue \<Rightarrow> string list \<Rightarrow> jsvalue" where
  "unwrap_then_index node [] = (if absent (unwrap node) then JNull else unwrap node)"
| "unwrap_then_index node (name # names) =
     (if absent node \<or> absent (unwrap node) then JNull
      else unwrap_then_index (index_field (unwrap node) name) names)"

text \<open>
  A field name is a name that no text, sequence or prototype has a member for: not
  \<^verbatim>\<open>length\<close>, not an index, and not the name of a member that values inherit.
\<close>

definition field_name :: "prototypes \<Rightarrow> string \<Rightarrow> bool" where
  "field_name inherited part =
     (part \<noteq> ''length'' \<and> array_index part = None \<and> map_of inherited part = None)"

text \<open>
  No sequence that the traversal indexes by a part of the path is empty or starts with
  \<^verbatim>\<open>null\<close> or \<^verbatim>\<open>undefined\<close>.
\<close>

fun first_elements_present :: "jsvalue \<Rightarrow> string list \<Rightarrow> bool" where
  "first_elements_present node [] = True"
| "first_elements_present node (name # names) =
     (absent node
      \<or> (\<not> absent (unwrap node)
          \<and> first_elements_present (index_field (unwrap node) name) names))"

text \<open>
  The trees that the XML parser yields: texts, mappings, and sequences that are never empty;
  no node is \<^verbatim>\<open>null\<close> or \<^verbatim>\<open>undefined\<close>.
\<close>

fun parsed :: "jsvalue \<Rightarrow> bool" where
  "parsed JNull = False"
| "parsed JUndefined = False"
| "parsed (JBool b) = False"
| "parsed (JString s) = True"
| "parsed (JNumber n) = True"
| "parsed (JArray xs) = (xs \<noteq> [] \<and> list_all parsed xs)"
| "parsed (JObject kvs) = list_all (\<lambda>kv. parsed (snd kv)) kvs"
| "parsed (JOther l) = False"

section \<open>The automatic login\<close>

text \<open>
  The surroundings of the server: the two environment variables, the file system at the
  path of the certificate, and the outcome of each login request, numbered from 0.
\<close>

record config =
  CERT_PASSWORD :: "string option"
  CERT_FILE :: "string option"
  existsSync :: "string \<Rightarrow> bool"
  readFileSync :: "string \<Rightarrow> exn + string"
  certificado :: "nat \<Rightarrow> string \<Rightarrow> string \<Rightarrow> http_outcome"

text \<open>
  The state of the process: the module variable \<^verbatim>\<open>cachedCookies\<close> (\<^verbatim>\<open>null\<close> is \<open>None\<close>), and
  the calls made so far, which only the properties read.
\<close>

datatype event = Ensure | Login | Action "string list"

record process =
  cachedCookies :: "string list option"
  events :: "event list"

definition record_event :: "event \<Rightarrow> process \<Rightarrow> process" where
  "record_event ev s = s\<lparr> events := events s @ [ev] \<rparr>"

definition ensureAuthenticated :: "config \<Rightarrow> process \<Rightarrow> (exn + string list) \<times> process" where
  "ensureAuthenticated cfg s0 =
     (let s = record_event Ensure s0 in
      case cachedCookies s of
        Some cookies \<Rightarrow> (Inr cookies, s)
      | None \<Rightarrow>
          (case CERT_PASSWORD cfg of
             None \<Rightarrow>
               (Inl (ApplicationException (''CERT_PASSWORD n'' @ [CHR 0xE3] @ ''o configurado.'')), s)
           | Some password \<Rightarrow>
               if password = [] then
                 (Inl (ApplicationException (''CERT_PASSWORD n'' @ [CHR 0xE3] @ ''o configurado.'')), s)
               else
                 (case CERT_FILE cfg of
                    None \<Rightarrow>
                      (Inl (ApplicationException (''CERT_FILE n'' @ [CHR 0xE3] @ ''o configurado.'')), s)
                  | Some pfxPath \<Rightarrow>
                      if pfxPath = [] then
                        (Inl (ApplicationException (''CERT_FILE n'' @ [CHR 0xE3] @ ''o configurado.'')), s)
                      else if \<not> existsSync cfg pfxPath then
                        (Inl (ApplicationException
                           (''Certificado n'' @ [CHR 0xE3] @ ''o encontrado em '' @ pfxPath)), s)
                      else
                        (case readFileSync cfg pfxPath of
                           Inl e \<Rightarrow> (Inl e, s)
                         | Inr pfxBuffer \<Rightarrow>
                             (let n = length (filter (\<lambda>ev. ev = Login) (events s));
                                  s1 = record_event Login s
                              in case login (certificado cfg n) pfxBuffer password of
                                   Inl e \<Rightarrow> (Inl e, s1)
                                 | Inr cookies \<Rightarrow>
                                     (let s2 = s1\<lparr> cachedCookies := Some cookies \<rparr>
                                      in if length cookies = 0 then
                                           (Inl (ApplicationException
                                              (''Nenhum cookie recebido ap'' @ [CHR 0xF3] @ ''s login.'')), s2)
                                         else (Inr cookies, s2)))))))"

text \<open>
  An action is what it does on each attempt, numbered from 0, with the cookies it is given.
  The actions of the server close over nothing of the process but these cookies.
\<close>

type_synonym 'a action = "nat \<Rightarrow> string list \<Rightarrow> exn + 'a"

fun is_Action :: "event \<Rightarrow> bool" where
  "is_Action (Action cookies) = True"
| "is_Action ev = False"

definition attempt :: "'a action \<Rightarrow> string list \<Rightarrow> process \<Rightarrow> (exn + 'a) \<times> process" where
  "attempt action cookies s =
     (action (length (filter is_Action (events s))) cookies, record_event (Action cookies) s)"

definition withAutoLogin :: "config \<Rightarrow> 'a action \<Rightarrow> process \<Rightarrow> (exn + 'a) \<times> process" where
  "withAutoLogin cfg action s0 =
     (case ensureAuthenticated cfg s0 of
        (Inl e, s1) \<Rightarrow> (Inl e, s1)
      | (Inr cookies, s1) \<Rightarrow>
          (case attempt action cookies s1 of
             (Inr v, s2) \<Rightarrow> (Inr v, s2)
           | (Inl error, s2) \<Rightarrow>
               if error = UnauthenticatedSessionException then
                 (let s3 = s2\<lparr> cachedCookies := None \<rparr>
                  in case ensureAuthenticated cfg s3 of
                       (Inl e, s4) \<Rightarrow> (Inl e, s4)
                     | (Inr freshCookies, s4) \<Rightarrow> attempt action freshCookies s4)
               else (Inl error, s2)))"

section \<open>Sample inputs\<close>

text \<open>Responses, rows, portals and endpoints on which the properties below are run.\<close>

definition listing :: "row list \<Rightarrow> http_outcome" where
  "listing rows =
     Response \<lparr> status_code = 200, responseUrl = None, location = None, set_cookie = None,
                payload = Html rows \<rparr>"

definition redirect :: "int \<Rightarrow> string \<Rightarrow> http_outcome" where
  "redirect code target =
     Response \<lparr> status_code = code, responseUrl = None, location = Some target,
                set_cookie = None, payload = Html [] \<rparr>"

definition sample_row :: "string \<Rightarrow> string \<Rightarrow> row" where
  "sample_row href amount =
     \<lparr> anchors = [''/EmissorNacional/Notas/Visualizar/1'', href],
       td_data = '' 02/01/2026 '',
       div_text = '' 12.345.678/0001-90  -  ACME   LTDA '',
       cnpj_text = ''12.345.678/0001-90'',
       td_competencia = ''01/2026'',
       td_center = ''Curitiba'',
       td_valor = amount,
       data_situacao = Some ''GERADA'' \<rparr>"

definition empty_portal :: portal where
  "empty_portal req = listing []"

definition dashboard_endpoint :: "string \<Rightarrow> string \<Rightarrow> http_outcome" where
  "dashboard_endpoint cert password = redirect 302 ''/EmissorNacional/Dashboard''"

definition login_endpoint :: "string \<Rightarrow> string \<Rightarrow> http_outcome" where
  "login_endpoint cert password = redirect 302 ''/EmissorNacional/Login''"

definition sample_item :: "string \<Rightarrow> jsnumber \<Rightarrow> NfseListItem" where
  "sample_item key amount =
     \<lparr> data = ''02/01/2026'',
       emitidoPara = \<lparr> cnpj = ''12.345.678/0001-90'', nome = ''ACME LTDA'' \<rparr>,
       competencia = ''01/2026'',
       municipioEmissor = ''Curitiba'',
       valor = amount,
       status = ''GERADA'',
       chave = key \<rparr>"

definition flaky_portal :: portal where
  "flaky_portal req =
     (if datainicio req = Some 0
      then listing [sample_row ''/EmissorNacional/Notas/Download/NFSe/111'' ''15.000,00'']
      else if datainicio req = Some 30 then NetworkFailure ''socket hang up''
      else listing [sample_row ''/EmissorNacional/Notas/Download/NFSe/333'' ''0,50''])"

definition expiring_portal :: portal where
  "expiring_portal req =
     (if datainicio req = Some 0
      then listing [sample_row ''/EmissorNacional/Notas/Download/NFSe/111'' ''15.000,00'']
      else if datainicio req = Some 30 then redirect 302 ''/EmissorNacional/Login?ReturnUrl=%2F''
      else listing [sample_row ''/EmissorNacional/Notas/Download/NFSe/333'' ''0,50''])"

definition window :: "int \<Rightarrow> int \<Rightarrow> request" where
  "window a b = \<lparr> cookie = ''s=1'', datainicio = Some a, datafim = Some b \<rparr>"


definition sample_config :: "(nat \<Rightarrow> string \<Rightarrow> string \<Rightarrow> http_outcome) \<Rightarrow> config" where
  "sample_config endpoints =
     \<lparr> CERT_PASSWORD = Some ''secret'',
       CERT_FILE = Some ''cert.pfx'',
       existsSync = (\<lambda>p. p = ''cert.pfx''),
       readFileSync = (\<lambda>p. Inr ''PFX''),
       certificado = endpoints \<rparr>"

definition cookie_endpoint :: "nat \<Rightarrow> string \<Rightarrow> string \<Rightarrow> http_outcome" where
  "cookie_endpoint n cert password =
     Response \<lparr> status_code = 302, responseUrl = None,
                location = Some ''/EmissorNacional/Dashboard'',
                set_cookie = Some [if n = 0 then ''s=1'' else ''s=2''],
                payload = Html [] \<rparr>"

definition no_cookie_endpoint :: "nat \<Rightarrow> string \<Rightarrow> string \<Rightarrow> http_outcome" where
  "no_cookie_endpoint n cert password = redirect 302 ''/EmissorNacional/Dashboard''"

definition fresh_process :: process where
  "fresh_process = \<lparr> cachedCookies = None, events = [] \<rparr>"

definition expiring_action :: "string action" where
  "expiring_action n cookies = Inl UnauthenticatedSessionException"

definition no_cookie_message :: string where
  "no_cookie_message = ''Nenhum cookie recebido ap'' @ [CHR 0xF3] @ ''s login.''"

text \<open>
  Some of the members that the values of the runtime inherit: a mapping has a \<^verbatim>\<open>constructor\<close>
  and a \<^verbatim>\<open>toString\<close>; the constructor has a \<^verbatim>\<open>name\<close>, and reading its \<^verbatim>\<open>caller\<close> throws.
\<close>

definition sample_prototypes :: prototypes where
  "sample_prototypes =
     [(''constructor'',
       \<lambda>v. case v of JObject kvs \<Rightarrow> Some (Inr (JOther ''Object'')) | _ \<Rightarrow> None),
      (''toString'',
       \<lambda>v. case v of
              JObject kvs \<Rightarrow> Some (Inr (JOther ''Object.prototype.toString''))
            | _ \<Rightarrow> None),
      (''caller'',
       \<lambda>v. if v = JOther ''Object''
            then Some (Inl (Error ''TypeError: restricted function property'')) else None),
      (''name'',
       \<lambda>v. if v = JOther ''Object'' then Some (Inr (JString ''Object'')) else None)]"

text \<open>A portal that refuses the second window with status 401 and a redirect to the login.\<close>

definition refusing_portal :: portal where
  "refusing_portal req =
     (if datainicio req = Some 0
      then listing [sample_row ''/EmissorNacional/Notas/Download/NFSe/111'' ''15.000,00'']
      else if datainicio req = Some 30 then redirect 401 ''/EmissorNacional/Login''
      else listing [sample_row ''/EmissorNacional/Notas/Download/NFSe/333'' ''0,50''])"

text \<open>
  A row with two download anchors of which only the second has digits, and a portal whose
  listing has a row without a download anchor, a row with a key and a row whose download
  anchor has no digits.
\<close>

definition two_anchor_row :: row where
  "two_anchor_row =
     (sample_row ''/EmissorNacional/Notas/Download/NFSe/123'' ''1,00'')
       \<lparr> anchors := [''/EmissorNacional/Notas/Download/NFSe/abc'',
                     ''/EmissorNacional/Notas/Download/NFSe/123''] \<rparr>"

definition mixed_portal :: portal where
  "mixed_portal req =
     listing [sample_row ''/EmissorNacional/Notas/Visualizar/2'' ''1,00'',
              sample_row ''/EmissorNacional/Notas/Download/NFSe/123456'' ''15.000,00'',
              sample_row ''/EmissorNacional/Notas/Download/NFSe/abc'' ''1,00'']"

section \<open>Zones and dates\<close>

text \<open>What makes a zone: a date moved forward by whole days is a later instant.\<close>

lemma zone_forward:
  "1 \<le> k \<Longrightarrow> t < UTC z (LocalTime z t + k * msPerDay)"
  using Rep_zone [of z] by (simp add: UTC_def LocalTime_def utc_offset_def local_offset_def)

lemma fixed_zone_offsets [simp]:
  "utc_offset (fixed_zone c) t = c" "local_offset (fixed_zone c) t = c"
  by (simp_all add: utc_offset_def local_offset_def fixed_zone_def Abs_zone_inverse msPerDay_def)

lemma sao_paulo_2018_offsets:
  "utc_offset sao_paulo_2018 t = (if t < 1541300400000 then - 10800000 else - 7200000)"
  "local_offset sao_paulo_2018 t = (if t < 1541293200000 then - 10800000 else - 7200000)"
  by (simp_all add: utc_offset_def local_offset_def sao_paulo_2018_def Abs_zone_inverse
      msPerDay_def)


lemma day_split: "(Day t + k) * msPerDay + TimeWithinDay t = t + k * msPerDay"
  by (simp add: Day_def TimeWithinDay_def algebra_simps)

lemma setDate_plus_steady:
  assumes "utc_offset z t = c" and "local_offset z (t + c + k * msPerDay) = c"
  shows "setDate_plus z (Some t) k = TimeClip (t + k * msPerDay)"
  using assms by (simp add: setDate_plus_def day_split LocalTime_def UTC_def)


section \<open>The loop and its windows\<close>

declare buscar_loop.simps [simp del] chunks.simps [simp del] steps.simps [simp del]

lemma chunks_stop: "\<not> date_le cs en \<Longrightarrow> chunks z cs en = []"
  by (subst chunks.simps) simp

lemma chunks_step:
  "date_le cs en \<Longrightarrow>
   chunks z cs en =
     (cs, chunk_end z cs en) # chunks z (setDate_plus z (new_Date (chunk_end z cs en)) 1) en"
  by (subst chunks.simps) simp

lemma buscar_loop_stop:
  "\<not> date_le cs en \<Longrightarrow> buscar_loop z portal ck cs en issued acc = (issued, Inr acc)"
  by (subst buscar_loop.simps) simp

lemma buscar_loop_step:
  "date_le cs en \<Longrightarrow>
   buscar_loop z portal ck cs en issued acc =
     (case fetch_chunk portal (chunk_request z ck (cs, chunk_end z cs en)) of
        Inl err \<Rightarrow>
          if err = UnauthenticatedSessionException
          then (issued @ [chunk_request z ck (cs, chunk_end z cs en)], Inl err)
          else buscar_loop z portal ck (setDate_plus z (new_Date (chunk_end z cs en)) 1) en
                 (issued @ [chunk_request z ck (cs, chunk_end z cs en)]) acc
      | Inr items \<Rightarrow>
          buscar_loop z portal ck (setDate_plus z (new_Date (chunk_end z cs en)) 1) en
            (issued @ [chunk_request z ck (cs, chunk_end z cs en)]) (acc @ items))"
  by (subst buscar_loop.simps)
     (auto simp add: chunk_end_def chunk_request_def Let_def split: sum.splits)

lemma buscar_loop_crawl:
  "buscar_loop z portal ck cs en issued acc =
     crawl portal (map (chunk_request z ck) (chunks z cs en)) issued acc"
proof (induction z portal ck cs en issued acc rule: buscar_loop.induct)
  case (1 z portal ck cs en issued acc)
  show ?case
  proof (cases "date_le cs en")
    case False
    then show ?thesis
      by (simp add: buscar_loop_stop chunks_stop)
  next
    case True
    let ?ce = "chunk_end z cs en"
    let ?req = "chunk_request z ck (cs, ?ce)"
    have ce: "(if date_gt (setDate_plus z (new_Date cs) 29) en then new_Date en
               else setDate_plus z (new_Date cs) 29) = ?ce"
      by (simp add: chunk_end_def)
    have rq: "\<lparr>cookie = ck, datainicio = formatDate z cs, datafim = formatDate z ?ce\<rparr> = ?req"
      by (simp add: chunk_request_def)
    show ?thesis
    proof (cases "fetch_chunk portal ?req")
      case (Inr items)
      have "buscar_loop z portal ck (setDate_plus z (new_Date ?ce) 1) en (issued @ [?req])
              (acc @ items) =
            crawl portal (map (chunk_request z ck) (chunks z (setDate_plus z (new_Date ?ce) 1) en))
              (issued @ [?req]) (acc @ items)"
        using "1.IH"(2) [OF True refl refl, of items] Inr unfolding ce rq by simp
      then show ?thesis using True Inr
        by (simp add: buscar_loop_step chunks_step)
    next
      case (Inl err)
      show ?thesis
      proof (cases "err = UnauthenticatedSessionException")
        case True
        then show ?thesis using \<open>date_le cs en\<close> Inl
          by (simp add: buscar_loop_step chunks_step)
      next
        case False
        have "buscar_loop z portal ck (setDate_plus z (new_Date ?ce) 1) en (issued @ [?req]) acc =
              crawl portal
                (map (chunk_request z ck) (chunks z (setDate_plus z (new_Date ?ce) 1) en))
                (issued @ [?req]) acc"
          using "1.IH"(1) [OF True refl refl, of err] Inl False unfolding ce rq by simp
        then show ?thesis using \<open>date_le cs en\<close> Inl False
          by (simp add: buscar_loop_step chunks_step)
      qed
    qed
  qed
qed

lemma crawl_no_expiry:
  "\<forall>r\<in>set reqs. \<not> expired portal r \<Longrightarrow>
   crawl portal reqs issued acc =
     (issued @ reqs, Inr (acc @ concat (map (chunk_items portal) reqs)))"
proof (induction reqs arbitrary: issued acc)
  case Nil
  show ?case by simp
next
  case (Cons req reqs)
  then have ih: "\<And>issued acc. crawl portal reqs issued acc =
      (issued @ reqs, Inr (acc @ concat (map (chunk_items portal) reqs)))"
    by simp
  from Cons.prems have ne: "fetch_chunk portal req \<noteq> Inl UnauthenticatedSessionException"
    by (simp add: expired_def)
  show ?case
  proof (cases "fetch_chunk portal req")
    case (Inl err)
    then have "chunk_items portal req = []" by (simp add: chunk_items_def)
    then show ?thesis using ne Inl by (simp add: ih)
  next
    case (Inr items)
    then have "chunk_items portal req = items" by (simp add: chunk_items_def)
    then show ?thesis using Inr by (simp add: ih)
  qed
qed

lemma crawl_expiry:
  "\<forall>r\<in>set pre. \<not> expired portal r \<Longrightarrow> expired portal req \<Longrightarrow>
   crawl portal (pre @ req # post) issued acc =
     (issued @ pre @ [req], Inl UnauthenticatedSessionException)"
proof (induction pre arbitrary: issued acc)
  case Nil
  then show ?case by (simp add: expired_def)
next
  case (Cons p pre)
  then have ih: "\<And>issued acc. crawl portal (pre @ req # post) issued acc =
      (issued @ pre @ [req], Inl UnauthenticatedSessionException)"
    by simp
  from Cons.prems have ne: "fetch_chunk portal p \<noteq> Inl UnauthenticatedSessionException"
    by (simp add: expired_def)
  show ?case
  proof (cases "fetch_chunk portal p")
    case (Inl err)
    then show ?thesis using ne by (simp add: ih)
  next
    case (Inr items)
    then show ?thesis by (simp add: ih)
  qed
qed

lemma crawl_cases:
  obtains (complete) "\<forall>r\<in>set reqs. \<not> expired portal r"
      "crawl portal reqs issued acc =
         (issued @ reqs, Inr (acc @ concat (map (chunk_items portal) reqs)))"
  | (cut) pre req post where "reqs = pre @ req # post"
      "\<forall>r\<in>set pre. \<not> expired portal r" "expired portal req"
      "crawl portal reqs issued acc = (issued @ pre @ [req], Inl UnauthenticatedSessionException)"
proof (cases "\<exists>r\<in>set reqs. expired portal r")
  case False
  then have "\<forall>r\<in>set reqs. \<not> expired portal r" by simp
  then show ?thesis using complete crawl_no_expiry by blast
next
  case True
  then obtain pre req post where
    "reqs = pre @ req # post" "expired portal req" "\<forall>r\<in>set pre. \<not> expired portal r"
    using split_list_first_prop [of reqs "expired portal"] by blast
  then show ?thesis using cut crawl_expiry by blast
qed


lemma buscar_nfse_crawl:
  "buscar_nfse z portal cookies data_inicio data_fim =
     crawl portal
       (map (chunk_request z (join ''; '' cookies))
          (chunks z (new_Date data_inicio) (new_Date data_fim))) [] []"
  by (simp add: buscar_nfse_def buscar_loop_crawl)

section \<open>The windows where the zone keeps its offset\<close>

lemma steps_stop: "\<not> s \<le> e \<Longrightarrow> steps s e = []"
  by (subst steps.simps) simp

lemma steps_step:
  "s \<le> e \<Longrightarrow>
   steps s e = (s, min (s + 29 * msPerDay) e) # steps (min (s + 29 * msPerDay) e + msPerDay) e"
  by (subst steps.simps) simp

lemma steady_later: "steady z c s e \<Longrightarrow> s \<le> s' \<Longrightarrow> steady z c s' e"
  by (simp add: steady_def)

lemma chunks_steady:
  assumes "steady z c s e" and "- maxTime \<le> s" and "e \<le> maxTime"
    and "\<forall>k. s + 30 * int k * msPerDay \<le> e \<longrightarrow> s + 30 * int k * msPerDay + 29 * msPerDay \<le> maxTime"
  shows "chunks z (Some s) (Some e) = map (\<lambda>w. (Some (fst w), Some (snd w))) (steps s e)"
  using assms
proof (induction s e rule: steps.induct)
  case (1 s e)
  show ?case
  proof (cases "s \<le> e")
    case False
    then show ?thesis by (simp add: chunks_stop steps_stop date_le_def)
  next
    case True
    let ?ce = "min (s + 29 * msPerDay) e"
    have D: "0 < msPerDay" by (simp add: msPerDay_def)
    have us: "utc_offset z t = c" if "s \<le> t" "t \<le> e" for t
      using "1.prems"(1) that by (simp add: steady_def)
    have ls: "local_offset z t = c" if "s + c \<le> t" "t \<le> e + c + 29 * msPerDay" for t
      using "1.prems"(1) that by (simp add: steady_def)
    have r0: "s + 29 * msPerDay \<le> maxTime"
      using "1.prems"(4) [rule_format, of 0] True by simp
    have ns: "new_Date (Some s) = Some s"
      using "1.prems"(2,3) True by (simp add: new_Date_def TimeClip_def)
    have "setDate_plus z (Some s) 29 = TimeClip (s + 29 * msPerDay)"
      using us [of s] ls [of "s + c + 29 * msPerDay"] True D
      by (intro setDate_plus_steady) simp_all
    then have s29: "setDate_plus z (Some s) 29 = Some (s + 29 * msPerDay)"
      using r0 "1.prems"(2) D by (simp add: TimeClip_def)
    have ne: "new_Date (Some e) = Some e"
      using "1.prems"(2,3) True by (simp add: new_Date_def TimeClip_def)
    have ce: "chunk_end z (Some s) (Some e) = Some ?ce"
      by (simp add: chunk_end_def ns s29 ne date_gt_def min_def)
    have ce_range: "s \<le> ?ce" "?ce \<le> e" using True D by simp_all
    have "- maxTime \<le> ?ce" "?ce \<le> maxTime"
      using "1.prems"(2,3) ce_range by linarith+
    then have "\<bar>?ce\<bar> \<le> maxTime" by linarith
    then have nce: "new_Date (Some ?ce) = Some ?ce"
      by (simp add: new_Date_def TimeClip_def)
    have nx: "setDate_plus z (Some ?ce) 1 = TimeClip (?ce + msPerDay)"
      using setDate_plus_steady [of z ?ce c 1] us [of ?ce] ls [of "?ce + c + msPerDay"]
        ce_range D by simp
    show ?thesis
    proof (cases "?ce + msPerDay \<le> maxTime")
      case False
      then have "setDate_plus z (Some ?ce) 1 = None" using nx by (simp add: TimeClip_def)
      moreover have "\<not> ?ce + msPerDay \<le> e" using False "1.prems"(3) by simp
      ultimately show ?thesis
        by (subst chunks_step, simp add: date_le_def True, subst steps_step [OF True])
           (simp add: ce nce chunks_stop steps_stop date_le_def)
    next
      case inside: True
      let ?s' = "?ce + msPerDay"
      have nx': "setDate_plus z (Some ?ce) 1 = Some ?s'"
        using nx inside "1.prems"(2) ce_range D by (simp add: TimeClip_def)
      have "s \<le> ?s'" using ce_range D by linarith
      then have st: "steady z c ?s' e"
        using "1.prems"(1) by (rule steady_later [rotated])
      have lo: "- maxTime \<le> ?s'" using "1.prems"(2) \<open>s \<le> ?s'\<close> by linarith
      have rg: "\<forall>k. ?s' + 30 * int k * msPerDay \<le> e \<longrightarrow>
          ?s' + 30 * int k * msPerDay + 29 * msPerDay \<le> maxTime"
      proof (intro allI impI)
        fix k assume k: "?s' + 30 * int k * msPerDay \<le> e"
        define X where "X = 30 * int k * msPerDay"
        have X: "0 \<le> X" using D by (simp add: X_def)
        have k': "?s' + X \<le> e" using k by (simp add: X_def)
        then have "?s' \<le> e" using X by linarith
        then have "\<not> e < s + 29 * msPerDay" using D by (simp add: min_def split: if_splits)
        then have eq: "?s' = s + 30 * msPerDay" by (simp add: min_def)
        have SX: "30 * int (Suc k) * msPerDay = 30 * msPerDay + X"
          by (simp add: X_def algebra_simps)
        have "s + 30 * int (Suc k) * msPerDay \<le> e" using k' unfolding SX eq by linarith
        then have "s + 30 * int (Suc k) * msPerDay + 29 * msPerDay \<le> maxTime"
          using "1.prems"(4) by blast
        then have "?s' + X + 29 * msPerDay \<le> maxTime" unfolding SX eq by linarith
        then show "?s' + 30 * int k * msPerDay + 29 * msPerDay \<le> maxTime"
          by (simp only: X_def)
      qed
      have "chunks z (Some ?s') (Some e) =
          map (\<lambda>w. (Some (fst w), Some (snd w))) (steps ?s' e)"
        using "1.IH" [OF True st lo "1.prems"(3) rg] .
      then show ?thesis
        by (subst chunks_step, simp add: date_le_def True, subst steps_step [OF True])
           (simp add: ce nce nx')
    qed
  qed
qed

lemma window_count_step:
  assumes "s + 29 * msPerDay \<le> e"
  shows "nat ((e - s) div (30 * msPerDay) + 1) =
         Suc (nat ((e - (s + 30 * msPerDay)) div (30 * msPerDay) + 1))"
proof -
  have "(e - s) div (30 * msPerDay) = (e - (s + 30 * msPerDay)) div (30 * msPerDay) + 1"
    by (simp add: msPerDay_def)
  moreover have "(e - (s + 30 * msPerDay)) div (30 * msPerDay) \<ge> -1"
    using assms by (simp add: msPerDay_def)
  ultimately show ?thesis by simp
qed


lemma steps_closed:
  "steps s e =
     map (\<lambda>k. (s + 30 * int k * msPerDay, min (s + 30 * int k * msPerDay + 29 * msPerDay) e))
       [0..<nat ((e - s) div (30 * msPerDay) + 1)]"
proof (induction s e rule: steps.induct)
  case (1 s e)
  show ?case
  proof (cases "s \<le> e")
    case False
    then have "(e - s) div (30 * msPerDay) < 0"
      by (simp add: msPerDay_def)
    then show ?thesis using False
      by (simp add: steps_stop)
  next
    case True
    show ?thesis
    proof (cases "s + 29 * msPerDay > e")
      case over: True
      then have "(e - s) div (30 * msPerDay) = 0" using True
        by (simp add: msPerDay_def)
      moreover have "steps (e + msPerDay) e = []"
        by (rule steps_stop) (simp add: msPerDay_def)
      ultimately show ?thesis using True over
        by (simp add: steps_step min_def)
    next
      case under: False
      let ?s' = "s + 30 * msPerDay"
      let ?n = "nat ((e - ?s') div (30 * msPerDay) + 1)"
      have m: "min (s + 29 * msPerDay) e = s + 29 * msPerDay" using under by simp
      have eq: "s + 29 * msPerDay + msPerDay = ?s'" by simp
      have n: "nat ((e - s) div (30 * msPerDay) + 1) = Suc ?n"
        using under by (intro window_count_step) simp
      have ih: "steps ?s' e =
         map (\<lambda>k. (?s' + 30 * int k * msPerDay, min (?s' + 30 * int k * msPerDay + 29 * msPerDay) e))
           [0..<?n]"
        using "1.IH" [OF True] unfolding m eq .
      have "steps s e = (s, min (s + 29 * msPerDay) e) # steps ?s' e"
        by (subst steps_step [OF True]) (simp only: m eq)
      also have "\<dots> = map (\<lambda>k. (s + 30 * int k * msPerDay, min (s + 30 * int k * msPerDay + 29 * msPerDay) e)) [0..<Suc ?n]"
        unfolding ih upt_conv_Cons [OF zero_less_Suc] map_Suc_upt [symmetric]
        by (simp add: algebra_simps)
      finally show ?thesis by (simp only: n)
    qed
  qed
qed


lemma Day_mono: "x \<le> y \<Longrightarrow> Day x \<le> Day y"
  by (simp add: Day_def msPerDay_def zdiv_mono1)


lemma day_and_time: "t = Day t * msPerDay + TimeWithinDay t"
  by (simp add: Day_def TimeWithinDay_def)



lemma day_windows_length:
  "a \<le> b \<Longrightarrow> int (nat ((b - a) div 30 + 1)) = \<lceil>of_int (b - a + 1) / (30::rat)\<rceil>"
proof -
  assume "a \<le> b"
  have "\<lceil>of_int (b - a + 1) / (30::rat)\<rceil> = - ((- (b - a + 1)) div 30)"
    using ceiling_divide_eq_div [of "b - a + 1" 30, where ?'a = rat] by simp
  also have "\<dots> = (b - a) div 30 + 1"
  proof -
    have "- (b - a + 1) = 30 * (- ((b - a) div 30) - 1) + (29 - (b - a) mod 30)"
      by (simp add: algebra_simps)
    moreover have "0 \<le> 29 - (b - a) mod 30" "29 - (b - a) mod 30 < 30"
      by simp_all
    ultimately have "(- (b - a + 1)) div 30 = - ((b - a) div 30) - 1"
      by (rule int_div_pos_eq)
    then show ?thesis by simp
  qed
  finally show ?thesis using \<open>a \<le> b\<close> by simp
qed


section \<open>Runs on the sample inputs\<close>

lemma scrape_sample_111:
  "scrape_row (sample_row ''/EmissorNacional/Notas/Download/NFSe/111'' ''15.000,00'') =
     Some (sample_item ''111'' (Finite 15000))"
  by (simp add: scrape_row_def sample_row_def sample_item_def download_prefix_def is_digit_def
      is_space_def trim_def parse_valor_def parseFloat_def decimal_def digit_value_def pow10_def
      exponent_part_def)

lemma scrape_sample_333:
  "scrape_row (sample_row ''/EmissorNacional/Notas/Download/NFSe/333'' ''0,50'') =
     Some (sample_item ''333'' (Finite (1 / 2)))"
  by (simp add: scrape_row_def sample_row_def sample_item_def download_prefix_def is_digit_def
      is_space_def trim_def parse_valor_def parseFloat_def decimal_def digit_value_def pow10_def
      exponent_part_def)

lemma scrape_sample_123456:
  "scrape_row (sample_row ''/EmissorNacional/Notas/Download/NFSe/123456'' ''15.000,00'') =
     Some (sample_item ''123456'' (Finite 15000))"
  by (simp add: scrape_row_def sample_row_def sample_item_def download_prefix_def is_digit_def
      is_space_def trim_def parse_valor_def parseFloat_def decimal_def digit_value_def pow10_def
      exponent_part_def)

lemma scrape_sample_no_anchor:
  "scrape_row (sample_row ''/EmissorNacional/Notas/Visualizar/2'' ''1,00'') = None"
  by (simp add: scrape_row_def sample_row_def download_prefix_def)

lemma scrape_sample_no_digits:
  "scrape_row (sample_row ''/EmissorNacional/Notas/Download/NFSe/abc'' ''1,00'') = None"
  by (simp add: scrape_row_def sample_row_def download_prefix_def is_digit_def)

lemmas fetch_eval = fetch_chunk_def axios_get_def validateStatus_def checkAuthentication_def
  cheerio_load_def listing_def redirect_def login_path_def List.map_filter_def

lemmas date_eval = new_Date_def TimeClip_def maxTime_def msPerDay_def setDate_plus_def
  formatDate_def date_le_def date_gt_def LocalTime_def UTC_def Day_def TimeWithinDay_def

lemmas loop_eval = buscar_nfse_def buscar_loop_step buscar_loop_stop chunk_end_def
  chunk_request_def date_eval

lemma flaky_run:
  "buscar_nfse (fixed_zone 0) flaky_portal [''s=1''] (Some 0) (Some 5529600005) =
     ([window 0 29, window 30 59, window 60 64],
      Inr [sample_item ''111'' (Finite 15000), sample_item ''333'' (Finite (1 / 2))])"
  by (simp add: loop_eval fetch_eval flaky_portal_def window_def scrape_sample_111 scrape_sample_333)

lemma expiring_run:
  "buscar_nfse (fixed_zone 0) expiring_portal [''s=1''] (Some 0) (Some 5529600005) =
      ([window 0 29, window 30 59], Inl UnauthenticatedSessionException)"
  by (simp add: loop_eval fetch_eval expiring_portal_def window_def scrape_sample_111 scrape_sample_333)

lemma refusing_run:
  "buscar_nfse (fixed_zone 0) refusing_portal [''s=1''] (Some 0) (Some 5529600005) =
     ([window 0 29, window 30 59, window 60 64],
      Inr [sample_item ''111'' (Finite 15000), sample_item ''333'' (Finite (1 / 2))])"
  by (simp add: loop_eval fetch_eval refusing_portal_def window_def scrape_sample_111 scrape_sample_333)

lemma mixed_run:
  "buscar_nfse (fixed_zone 0) mixed_portal [''s=1''] (Some 0) (Some 5) =
     ([window 0 0], Inr [sample_item ''123456'' (Finite 15000)])"
  by (simp add: loop_eval fetch_eval mixed_portal_def window_def scrape_sample_123456
      scrape_sample_no_anchor scrape_sample_no_digits)

lemma sao_paulo_run:
  "buscar_nfse sao_paulo_2018 empty_portal [''s=1''] (Some 1538794800000) (Some 1543975200000) =
     ([window 17810 17839, window 17840 17869], Inr [])"
  by (simp add: loop_eval fetch_eval empty_portal_def window_def sao_paulo_2018_offsets)

section \<open>The crawl\<close>

lemma issued_of_complete:
  assumes "buscar_nfse z portal cookies s e = (issued, Inr items)"
  shows "issued = map (chunk_request z (join ''; '' cookies)) (chunks z (new_Date s) (new_Date e))"
    and "items = concat (map (chunk_items portal) issued)"
    and "\<forall>r\<in>set issued. \<not> expired portal r"
proof -
  let ?reqs = "map (chunk_request z (join ''; '' cookies)) (chunks z (new_Date s) (new_Date e))"
  have c: "crawl portal ?reqs [] [] = (issued, Inr items)"
    using assms by (simp add: buscar_nfse_crawl)
  have "issued = ?reqs \<and> items = concat (map (chunk_items portal) issued)
      \<and> (\<forall>r\<in>set issued. \<not> expired portal r)"
  proof (cases rule: crawl_cases [of ?reqs portal "[]" "[]"])
    case complete
    then show ?thesis using c by simp
  next
    case (cut pre req post)
    then show ?thesis using c by simp
  qed
  then show "issued = ?reqs" "items = concat (map (chunk_items portal) issued)"
    "\<forall>r\<in>set issued. \<not> expired portal r" by simp_all
qed

lemma requests_without_expiry:
  assumes "\<forall>r\<in>set (fst (buscar_nfse z portal cookies s e)). \<not> expired portal r"
  shows "buscar_nfse z portal cookies s e =
     (map (chunk_request z (join ''; '' cookies)) (chunks z (new_Date s) (new_Date e)),
      Inr (concat (map (chunk_items portal)
             (map (chunk_request z (join ''; '' cookies)) (chunks z (new_Date s) (new_Date e))))))"
proof -
  let ?reqs = "map (chunk_request z (join ''; '' cookies)) (chunks z (new_Date s) (new_Date e))"
  show ?thesis
  proof (cases rule: crawl_cases [of ?reqs portal "[]" "[]"])
    case complete
    then show ?thesis by (simp add: buscar_nfse_crawl)
  next
    case (cut pre req post)
    then have "fst (buscar_nfse z portal cookies s e) = pre @ [req]"
      by (simp add: buscar_nfse_crawl)
    then have "\<not> expired portal req" using assms by simp
    then show ?thesis using cut(3) by simp
  qed
qed

text \<open>
  C10. When \<^verbatim>\<open>data_inicio\<close> is strictly after \<^verbatim>\<open>data_fim\<close> the loop is never entered: no request
  is issued and the empty list is returned, without an exception.
\<close>

theorem buscar_nfse_empty_range:
  "data_fim < data_inicio \<Longrightarrow>
   buscar_nfse z portal cookies (Some data_inicio) (Some data_fim) = ([], Inr [])"
  by (simp add: buscar_nfse_def buscar_loop_stop new_Date_def TimeClip_def date_le_def)

theorem buscar_nfse_empty_range_witness:
  "(4::int) < 5 \<and> buscar_nfse (fixed_zone 0) empty_portal [''s=1''] (Some 5) (Some 4) = ([], Inr [])"
  using buscar_nfse_empty_range [of 4 5 "fixed_zone 0" empty_portal "[''s=1'']"] by simp

text \<open>
  The same holds when one of the two dates is invalid: a comparison with an invalid date is
  false.
\<close>

lemma buscar_nfse_invalid_date:
  "data_inicio = None \<or> data_fim = None \<Longrightarrow>
   buscar_nfse z portal cookies data_inicio data_fim = ([], Inr [])"
  by (auto simp: buscar_nfse_def buscar_loop_stop new_Date_def date_le_def split: option.splits)

lemma fetch_chunk_expired:
  assumes "axios_get (portal req) = Inr response"
    and "includes_str (case responseUrl response of None \<Rightarrow> [] | Some u \<Rightarrow> u) login_path
         \<or> (\<exists>l. location response = Some l \<and> includes_str l login_path)"
  shows "expired portal req"
proof -
  have "login_path \<noteq> []" by (simp add: login_path_def)
  then have "\<not> includes_str [] login_path" by simp
  then have "checkAuthentication response = Inl UnauthenticatedSessionException"
    using assms(2) by (auto simp: checkAuthentication_def Let_def split: option.splits)
  then show ?thesis using assms(1) by (simp add: expired_def fetch_chunk_def)
qed

text \<open>
  C3. Let the request of some window be answered with a response whose status is at least
  200 and less than 400, the statuses that the client delivers, and whose resolved URL or
  \<^verbatim>\<open>Location\<close> header contains the login path. Then \<^verbatim>\<open>buscar_nfse\<close> ends with
  \<^verbatim>\<open>UnauthenticatedSessionException\<close>: no list is returned, and that request is the last one
  issued, so that no later window is processed.
\<close>

theorem expired_session_ends_crawl:
  assumes "buscar_nfse z portal cookies data_inicio data_fim = (issued, result)"
    and "i < length issued"
    and "portal (issued ! i) = Response response"
    and "200 \<le> status_code response \<and> status_code response < 400"
    and "includes_str (case responseUrl response of None \<Rightarrow> [] | Some u \<Rightarrow> u) login_path
         \<or> (\<exists>l. location response = Some l \<and> includes_str l login_path)"
  shows "result = Inl UnauthenticatedSessionException \<and> Suc i = length issued"
proof -
  let ?reqs = "map (chunk_request z (join ''; '' cookies))
      (chunks z (new_Date data_inicio) (new_Date data_fim))"
  have c: "crawl portal ?reqs [] [] = (issued, result)"
    using assms(1) by (simp add: buscar_nfse_crawl)
  have "axios_get (portal (issued ! i)) = Inr response"
    using assms(3,4) by (simp add: axios_get_def validateStatus_def)
  then have ex: "expired portal (issued ! i)"
    using fetch_chunk_expired [of portal "issued ! i" response] assms(5) by simp
  show ?thesis
  proof (cases rule: crawl_cases [of ?reqs portal "[]" "[]"])
    case complete
    then have iss: "issued = ?reqs" using c by simp
    have "issued ! i \<in> set issued" using assms(2) by simp
    then have "\<not> expired portal (issued ! i)"
      using complete(1) unfolding iss by (rule bspec [rotated])
    then show ?thesis using ex by simp
  next
    case (cut pre req post)
    then have iss: "issued = pre @ [req]" and res: "result = Inl UnauthenticatedSessionException"
      using c by simp_all
    have "\<not> i < length pre"
    proof
      assume "i < length pre"
      then have "issued ! i \<in> set pre" by (simp add: iss nth_append)
      then show False using cut(2) ex by blast
    qed
    then have "Suc i = length issued" using assms(2) by (simp add: iss)
    then show ?thesis using res by simp
  qed
qed

theorem expired_session_ends_crawl_witness:
  "buscar_nfse (fixed_zone 0) expiring_portal [''s=1''] (Some 0) (Some 5529600005) =
     ([window 0 29, window 30 59], Inl UnauthenticatedSessionException)
   \<and> expiring_portal (window 30 59) = redirect 302 ''/EmissorNacional/Login?ReturnUrl=%2F''
   \<and> (Inl UnauthenticatedSessionException :: exn + NfseListItem list) =
       Inl UnauthenticatedSessionException
   \<and> Suc 1 = length [window 0 29, window 30 59]"
proof -
  let ?response = "\<lparr> status_code = 302, responseUrl = None,
      location = Some ''/EmissorNacional/Login?ReturnUrl=%2F'', set_cookie = None,
      payload = Html [] \<rparr>"
  have h2: "1 < length [window 0 29, window 30 59]" by simp
  have h3: "expiring_portal ([window 0 29, window 30 59] ! 1) = Response ?response"
    by (simp add: expiring_portal_def window_def redirect_def)
  have h4: "200 \<le> status_code ?response \<and> status_code ?response < 400" by simp
  have h5: "includes_str (case responseUrl ?response of None \<Rightarrow> [] | Some u \<Rightarrow> u) login_path
         \<or> (\<exists>l. location ?response = Some l \<and> includes_str l login_path)"
    by (simp add: login_path_def)
  have "(Inl UnauthenticatedSessionException :: exn + NfseListItem list) =
       Inl UnauthenticatedSessionException
     \<and> Suc 1 = length [window 0 29, window 30 59]"
    using expired_session_ends_crawl [of "fixed_zone 0" expiring_portal "[''s=1'']" "Some 0"
        "Some 5529600005" "[window 0 29, window 30 59]" "Inl UnauthenticatedSessionException" 1
        ?response]
      expiring_run h2 h3 h4 h5
    by blast
  then show ?thesis using expiring_run h3 by (simp add: redirect_def)
qed

text \<open>
  A response whose status the client refuses never reaches \<^verbatim>\<open>checkAuthentication\<close>: whatever
  its headers, it is a failure of its window like any other.
\<close>

lemma refused_status_is_no_expiry:
  assumes "portal req = Response r" and "\<not> validateStatus (status_code r)"
  shows "fetch_chunk portal req =
           Inl (Error (''Request failed with status code '' @ show_nat (nat (status_code r))))"
    and "\<not> expired portal req"
  using assms by (simp_all add: fetch_chunk_def axios_get_def expired_def)

text \<open>
  So the property fails for a response with another status. The second of three windows is
  answered with status 401 and a \<^verbatim>\<open>Location\<close> header that is the login path: the third window
  is requested all the same, and the items of the first and of the third are returned.
\<close>

theorem refused_login_redirect_counterexample:
  "refusing_portal (window 30 59) =
     Response \<lparr> status_code = 401, responseUrl = None,
                location = Some ''/EmissorNacional/Login'', set_cookie = None,
                payload = Html [] \<rparr>
   \<and> includes_str ''/EmissorNacional/Login'' login_path
   \<and> buscar_nfse (fixed_zone 0) refusing_portal [''s=1''] (Some 0) (Some 5529600005) =
       ([window 0 29, window 30 59, window 60 64],
        Inr [sample_item ''111'' (Finite 15000), sample_item ''333'' (Finite (1 / 2))])"
  by (simp add: refusing_run refusing_portal_def window_def redirect_def login_path_def)

text \<open>
  C4. In a crawl where no window raises \<^verbatim>\<open>UnauthenticatedSessionException\<close>, every failure of
  a window is caught and the next window is requested: the requests issued are those of the
  windows of the range, the same as in a crawl where every window succeeds, and the list
  returned is the concatenation, in the order of the windows, of the items of the windows
  that succeeded. In the run below the second of three windows fails and the items of the
  first and of the third are returned, in that order.
\<close>

theorem crawl_resilience:
  assumes "buscar_nfse z portal cookies data_inicio data_fim = (issued, result)"
    and "\<forall>r\<in>set issued. fetch_chunk portal r \<noteq> Inl UnauthenticatedSessionException"
  shows "result =
           Inr (concat (map (\<lambda>r. case fetch_chunk portal r of Inl err \<Rightarrow> [] | Inr items \<Rightarrow> items)
                  issued))
         \<and> issued = map (chunk_request z (join ''; '' cookies))
                      (chunks z (new_Date data_inicio) (new_Date data_fim))
         \<and> issued = fst (buscar_nfse z empty_portal cookies data_inicio data_fim)"
proof -
  have ci: "chunk_items portal = (\<lambda>r. case fetch_chunk portal r of Inl err \<Rightarrow> [] | Inr items \<Rightarrow> items)"
    by (rule ext) (simp add: chunk_items_def)
  have "\<forall>r\<in>set (fst (buscar_nfse z portal cookies data_inicio data_fim)). \<not> expired portal r"
    using assms by (simp add: expired_def)
  then have run: "issued = map (chunk_request z (join ''; '' cookies))
                      (chunks z (new_Date data_inicio) (new_Date data_fim))"
      "result = Inr (concat (map (chunk_items portal) issued))"
    using requests_without_expiry [of z portal cookies data_inicio data_fim] assms(1)
    by simp_all
  have "\<not> expired empty_portal r" for r
    by (simp add: expired_def fetch_eval empty_portal_def)
  then have "fst (buscar_nfse z empty_portal cookies data_inicio data_fim) =
      map (chunk_request z (join ''; '' cookies))
        (chunks z (new_Date data_inicio) (new_Date data_fim))"
    using requests_without_expiry [of z empty_portal cookies data_inicio data_fim] by simp
  then show ?thesis using run by (simp add: ci)
qed

theorem crawl_resilience_witness:
  "fetch_chunk flaky_portal (window 30 59) = Inl (Error ''socket hang up'')
   \<and> buscar_nfse (fixed_zone 0) flaky_portal [''s=1''] (Some 0) (Some 5529600005) =
       ([window 0 29, window 30 59, window 60 64],
        Inr (concat (map (\<lambda>r. case fetch_chunk flaky_portal r of Inl err \<Rightarrow> [] | Inr items \<Rightarrow> items)
                      [window 0 29, window 30 59, window 60 64])))
   \<and> concat (map (\<lambda>r. case fetch_chunk flaky_portal r of Inl err \<Rightarrow> [] | Inr items \<Rightarrow> items)
               [window 0 29, window 30 59, window 60 64]) =
       [sample_item ''111'' (Finite 15000), sample_item ''333'' (Finite (1 / 2))]
   \<and> [window 0 29, window 30 59, window 60 64] =
       fst (buscar_nfse (fixed_zone 0) empty_portal [''s=1''] (Some 0) (Some 5529600005))"
proof -
  have f1: "fetch_chunk flaky_portal (window 0 29) = Inr [sample_item ''111'' (Finite 15000)]"
    by (simp add: fetch_eval flaky_portal_def window_def scrape_sample_111)
  have f2: "fetch_chunk flaky_portal (window 30 59) = Inl (Error ''socket hang up'')"
    by (simp add: fetch_eval flaky_portal_def window_def)
  have f3: "fetch_chunk flaky_portal (window 60 64) = Inr [sample_item ''333'' (Finite (1 / 2))]"
    by (simp add: fetch_eval flaky_portal_def window_def scrape_sample_333)
  have h2: "\<forall>r\<in>set [window 0 29, window 30 59, window 60 64].
      fetch_chunk flaky_portal r \<noteq> Inl UnauthenticatedSessionException"
    by (simp add: f1 f2 f3)
  have r: "Inr [sample_item ''111'' (Finite 15000), sample_item ''333'' (Finite (1 / 2))] =
        Inr (concat (map (\<lambda>r. case fetch_chunk flaky_portal r of Inl err \<Rightarrow> [] | Inr items \<Rightarrow> items)
                      [window 0 29, window 30 59, window 60 64]))"
    and e: "[window 0 29, window 30 59, window 60 64] =
        fst (buscar_nfse (fixed_zone 0) empty_portal [''s=1''] (Some 0) (Some 5529600005))"
    using crawl_resilience [OF flaky_run h2] by blast+
  show ?thesis
  proof (intro conjI)
    show "fetch_chunk flaky_portal (window 30 59) = Inl (Error ''socket hang up'')"
      by (rule f2)
    show "buscar_nfse (fixed_zone 0) flaky_portal [''s=1''] (Some 0) (Some 5529600005) =
       ([window 0 29, window 30 59, window 60 64],
        Inr (concat (map (\<lambda>r. case fetch_chunk flaky_portal r of Inl err \<Rightarrow> [] | Inr items \<Rightarrow> items)
                      [window 0 29, window 30 59, window 60 64])))"
      unfolding r [symmetric] by (rule flaky_run)
    show "concat (map (\<lambda>r. case fetch_chunk flaky_portal r of Inl err \<Rightarrow> [] | Inr items \<Rightarrow> items)
               [window 0 29, window 30 59, window 60 64]) =
       [sample_item ''111'' (Finite 15000), sample_item ''333'' (Finite (1 / 2))]"
      using r by simp
    show "[window 0 29, window 30 59, window 60 64] =
       fst (buscar_nfse (fixed_zone 0) empty_portal [''s=1''] (Some 0) (Some 5529600005))"
      by (rule e)
  qed
qed

section \<open>The keys of the items\<close>

lemma regex_match_digits:
  "regex_match h = Some m \<Longrightarrow> m \<noteq> [] \<and> list_all is_digit m"
proof (induction h)
  case Nil
  then show ?case by simp
next
  case (Cons c cs)
  have "list_all is_digit (takeWhile is_digit xs)" for xs
    by (induction xs) simp_all
  then show ?case using Cons by (auto split: if_splits)
qed

lemma scrape_row_key:
  assumes "scrape_row tr = Some item"
  shows "chave item \<noteq> [] \<and> list_all is_digit (chave item)"
proof -
  let ?links = "filter (\<lambda>h. includes_str h download_prefix) (anchors tr)"
  from assms obtain h hs m where "?links = h # hs" "regex_match h = Some m" "chave item = m"
    by (auto simp: scrape_row_def Let_def split: list.splits option.splits if_splits)
  then show ?thesis using regex_match_digits by simp
qed

lemma scrape_row_first_link:
  assumes "filter (\<lambda>h. includes_str h download_prefix) (anchors tr) = h # hs"
  shows "regex_match h = Some m \<Longrightarrow> \<exists>item. scrape_row tr = Some item \<and> chave item = m"
    and "regex_match h = None \<Longrightarrow> scrape_row tr = None"
proof -
  have "includes_str h download_prefix"
    using assms by (metis filter_eq_ConsD)
  moreover have "\<not> includes_str [] download_prefix" by (simp add: download_prefix_def)
  ultimately have ne: "h \<noteq> []" by auto
  show "regex_match h = Some m \<Longrightarrow> \<exists>item. scrape_row tr = Some item \<and> chave item = m"
    using assms ne regex_match_digits [of h m] by (simp add: scrape_row_def Let_def)
  show "regex_match h = None \<Longrightarrow> scrape_row tr = None"
    using assms by (simp add: scrape_row_def Let_def)
qed

lemma scrape_row_no_link:
  "filter (\<lambda>h. includes_str h download_prefix) (anchors tr) = [] \<Longrightarrow> scrape_row tr = None"
  by (simp add: scrape_row_def Let_def)

lemma startsWith_append: "startsWith (p @ s) p"
  by (induction p) simp_all

lemma regex_match_prefix_digits:
  assumes "ds \<noteq> []" and "list_all is_digit ds"
  shows "regex_match (download_prefix @ ds) = Some ds"
proof -
  have tw: "takeWhile is_digit ds = ds"
    using assms(2) by (simp add: takeWhile_eq_all_conv list_all_iff)
  obtain c cs where p: "download_prefix = c # cs"
    by (simp add: download_prefix_def)
  have s: "startsWith (c # cs @ ds) download_prefix"
    using startsWith_append [of download_prefix ds] by (simp add: p)
  have d: "drop (length download_prefix) (c # cs @ ds) = ds"
    by (simp add: p)
  have "regex_match (c # cs @ ds) = Some ds"
    using assms(1) by (simp add: s d tw)
  then show ?thesis by (simp add: p)
qed

lemma chunk_items_scraped:
  "item \<in> set (chunk_items portal r) \<Longrightarrow> \<exists>tr. scrape_row tr = Some item"
  by (auto simp: chunk_items_def fetch_chunk_def List.map_filter_def split: sum.splits)


lemma scrape_two_anchor_row: "scrape_row two_anchor_row = None"
  by (simp add: scrape_row_def two_anchor_row_def sample_row_def download_prefix_def is_digit_def)

lemma delivered_listing:
  assumes "\<not> expired portal r"
    and "axios_get (portal r) = Inr response" and "payload response = Html rows"
  shows "chunk_items portal r = List.map_filter scrape_row rows"
proof -
  have "checkAuthentication response = Inl UnauthenticatedSessionException
      \<or> checkAuthentication response = Inr ()"
    by (simp add: checkAuthentication_def Let_def split: option.splits)
  moreover have "checkAuthentication response \<noteq> Inl UnauthenticatedSessionException"
    using assms(1,2) by (auto simp: expired_def fetch_chunk_def)
  ultimately have "checkAuthentication response = Inr ()" by blast
  then show ?thesis
    using assms(2,3) by (simp add: chunk_items_def fetch_chunk_def cheerio_load_def)
qed

lemma chunk_items_source:
  assumes "item \<in> set (chunk_items portal r)"
  shows "\<exists>response rows tr. axios_get (portal r) = Inr response \<and> payload response = Html rows
           \<and> tr \<in> set rows \<and> scrape_row tr = Some item"
proof -
  from assms obtain response rows where
    "axios_get (portal r) = Inr response" "cheerio_load (payload response) = Inr rows"
    "item \<in> set (List.map_filter scrape_row rows)"
    by (auto simp: chunk_items_def fetch_chunk_def split: sum.splits)
  moreover from this have "payload response = Html rows"
    by (auto simp: cheerio_load_def split: body.splits)
  moreover from calculation obtain tr where "tr \<in> set rows" "scrape_row tr = Some item"
    by (auto simp: List.map_filter_def)
  ultimately show ?thesis by blast
qed

lemma two_anchor_fetch:
  "fetch_chunk (\<lambda>req. listing [two_anchor_row]) r = Inr []"
  by (simp add: fetch_eval scrape_two_anchor_row)

lemma two_anchor_run:
  "buscar_nfse (fixed_zone 0) (\<lambda>req. listing [two_anchor_row]) [''s=1''] (Some 0) (Some 5) =
       ([window 0 0], Inr [])"
  by (simp add: loop_eval two_anchor_fetch window_def)

text \<open>
  C8. Every item that \<^verbatim>\<open>buscar_nfse\<close> returns has a key that is a non-empty run of digits, and
  the items returned are those of the rows of the listings delivered: each item is what
  \<^verbatim>\<open>scrape_row\<close> makes of a row of the listing of a window, and each row of such a listing
  of which \<^verbatim>\<open>scrape_row\<close> makes an item has it in the output. The download anchor of a row is
  the first of its anchors whose \<^verbatim>\<open>href\<close> contains the download path. A row whose download
  anchor matches the pattern gives an item whose key is the captured group; in particular an
  \<^verbatim>\<open>href\<close> made of the download prefix and digits gives those digits, and
  \<^verbatim>\<open>/EmissorNacional/Notas/Download/NFSe/123456\<close> gives \<^verbatim>\<open>123456\<close>. A row without a
  download anchor, and a row whose download anchor captures no digits, add no item.
\<close>

theorem items_have_keys:
  "(buscar_nfse z portal cookies data_inicio data_fim = (issued, Inr items)
      \<longrightarrow> (\<forall>item\<in>set items. chave item \<noteq> [] \<and> list_all is_digit (chave item))
        \<and> (\<forall>item\<in>set items. \<exists>r\<in>set issued. \<exists>response rows row.
              axios_get (portal r) = Inr response \<and> payload response = Html rows
              \<and> row \<in> set rows \<and> scrape_row row = Some item)
        \<and> (\<forall>r\<in>set issued. \<forall>response rows row item.
              axios_get (portal r) = Inr response \<and> payload response = Html rows
              \<and> row \<in> set rows \<and> scrape_row row = Some item
              \<longrightarrow> item \<in> set items))
   \<and> (filter (\<lambda>h. includes_str h download_prefix) (anchors tr) = h # hs
        \<and> regex_match h = Some digits
      \<longrightarrow> (\<exists>item. scrape_row tr = Some item \<and> chave item = digits))
   \<and> (ds \<noteq> [] \<and> list_all is_digit ds \<longrightarrow> regex_match (download_prefix @ ds) = Some ds)
   \<and> regex_match ''/EmissorNacional/Notas/Download/NFSe/123456'' = Some ''123456''
   \<and> (filter (\<lambda>h. includes_str h download_prefix) (anchors tr') = []
      \<longrightarrow> scrape_row tr' = None)
   \<and> (filter (\<lambda>h. includes_str h download_prefix) (anchors tr'') = h'' # hs''
        \<and> regex_match h'' = None
      \<longrightarrow> scrape_row tr'' = None)"
proof (intro conjI impI)
  assume run: "buscar_nfse z portal cookies data_inicio data_fim = (issued, Inr items)"
  show "\<forall>item\<in>set items. chave item \<noteq> [] \<and> list_all is_digit (chave item)"
  proof
    fix item assume "item \<in> set items"
    then obtain r where "item \<in> set (chunk_items portal r)"
      unfolding issued_of_complete(2) [OF run] by auto
    then show "chave item \<noteq> [] \<and> list_all is_digit (chave item)"
      using chunk_items_scraped scrape_row_key by blast
  qed
  show "\<forall>item\<in>set items. \<exists>r\<in>set issued. \<exists>response rows row.
              axios_get (portal r) = Inr response \<and> payload response = Html rows
              \<and> row \<in> set rows \<and> scrape_row row = Some item"
  proof
    fix item assume "item \<in> set items"
    then obtain r where "r \<in> set issued" "item \<in> set (chunk_items portal r)"
      unfolding issued_of_complete(2) [OF run] by auto
    then show "\<exists>r\<in>set issued. \<exists>response rows row.
              axios_get (portal r) = Inr response \<and> payload response = Html rows
              \<and> row \<in> set rows \<and> scrape_row row = Some item"
      using chunk_items_source [of item portal r] by blast
  qed
  show "\<forall>r\<in>set issued. \<forall>response rows row item.
              axios_get (portal r) = Inr response \<and> payload response = Html rows
              \<and> row \<in> set rows \<and> scrape_row row = Some item
              \<longrightarrow> item \<in> set items"
  proof (intro ballI allI impI)
    fix r response rows row item
    assume r: "r \<in> set issued"
      and d: "axios_get (portal r) = Inr response \<and> payload response = Html rows
              \<and> row \<in> set rows \<and> scrape_row row = Some item"
    have "\<not> expired portal r" using issued_of_complete(3) [OF run] r by blast
    then have "chunk_items portal r = List.map_filter scrape_row rows"
      using d delivered_listing by blast
    moreover have "item \<in> set (List.map_filter scrape_row rows)"
      using d by (force simp: List.map_filter_def)
    ultimately have "item \<in> set (chunk_items portal r)" by simp
    then show "item \<in> set items"
      unfolding issued_of_complete(2) [OF run] using r by auto
  qed
next
  assume "filter (\<lambda>h. includes_str h download_prefix) (anchors tr) = h # hs
        \<and> regex_match h = Some digits"
  then show "\<exists>item. scrape_row tr = Some item \<and> chave item = digits"
    using scrape_row_first_link(1) by blast
next
  assume "ds \<noteq> [] \<and> list_all is_digit ds"
  then show "regex_match (download_prefix @ ds) = Some ds"
    using regex_match_prefix_digits by blast
next
  show "regex_match ''/EmissorNacional/Notas/Download/NFSe/123456'' = Some ''123456''"
    by (simp add: download_prefix_def is_digit_def)
next
  assume "filter (\<lambda>h. includes_str h download_prefix) (anchors tr') = []"
  then show "scrape_row tr' = None" by (rule scrape_row_no_link)
next
  assume "filter (\<lambda>h. includes_str h download_prefix) (anchors tr'') = h'' # hs''
        \<and> regex_match h'' = None"
  then show "scrape_row tr'' = None"
    using scrape_row_first_link(2) by blast
qed

theorem items_have_keys_witness:
  "buscar_nfse (fixed_zone 0) mixed_portal [''s=1''] (Some 0) (Some 5) =
     ([window 0 0], Inr [sample_item ''123456'' (Finite 15000)])
   \<and> chave (sample_item ''123456'' (Finite 15000)) = ''123456''
   \<and> list_all is_digit (chave (sample_item ''123456'' (Finite 15000)))
   \<and> (\<exists>response rows row.
        axios_get (mixed_portal (window 0 0)) = Inr response \<and> payload response = Html rows
        \<and> row \<in> set rows \<and> scrape_row row = Some (sample_item ''123456'' (Finite 15000)))
   \<and> (\<exists>item. scrape_row (sample_row ''/EmissorNacional/Notas/Download/NFSe/123456'' ''15.000,00'')
                = Some item \<and> chave item = ''123456'')
   \<and> regex_match (download_prefix @ ''123456'') = Some ''123456''
   \<and> scrape_row (sample_row ''/EmissorNacional/Notas/Visualizar/2'' ''1,00'') = None
   \<and> scrape_row (sample_row ''/EmissorNacional/Notas/Download/NFSe/abc'' ''1,00'') = None"
proof -
  let ?tr = "sample_row ''/EmissorNacional/Notas/Download/NFSe/123456'' ''15.000,00''"
  let ?tr' = "sample_row ''/EmissorNacional/Notas/Visualizar/2'' ''1,00''"
  let ?tr'' = "sample_row ''/EmissorNacional/Notas/Download/NFSe/abc'' ''1,00''"
  let ?items = "[sample_item ''123456'' (Finite 15000)]"
  have h2: "filter (\<lambda>h. includes_str h download_prefix) (anchors ?tr) =
              [''/EmissorNacional/Notas/Download/NFSe/123456'']
            \<and> regex_match ''/EmissorNacional/Notas/Download/NFSe/123456'' = Some ''123456''"
    by (simp add: sample_row_def download_prefix_def is_digit_def)
  have h3: "''123456'' \<noteq> [] \<and> list_all is_digit ''123456''"
    by (simp add: is_digit_def)
  have h5: "filter (\<lambda>h. includes_str h download_prefix) (anchors ?tr') = []"
    by (simp add: sample_row_def download_prefix_def)
  have h6: "filter (\<lambda>h. includes_str h download_prefix) (anchors ?tr'') =
              [''/EmissorNacional/Notas/Download/NFSe/abc'']
            \<and> regex_match ''/EmissorNacional/Notas/Download/NFSe/abc'' = None"
    by (simp add: sample_row_def download_prefix_def is_digit_def)
  note T = items_have_keys [of "fixed_zone 0" mixed_portal "[''s=1'']" "Some 0" "Some 5"
        "[window 0 0]" ?items
        ?tr "''/EmissorNacional/Notas/Download/NFSe/123456''" "[]" "''123456''" "''123456''"
        ?tr' ?tr'' "''/EmissorNacional/Notas/Download/NFSe/abc''" "[]"]
  note R = T [THEN conjunct1, THEN mp, OF mixed_run]
  have "\<forall>item\<in>set ?items. chave item \<noteq> [] \<and> list_all is_digit (chave item)"
    by (rule R [THEN conjunct1])
  then have c2: "list_all is_digit (chave (sample_item ''123456'' (Finite 15000)))"
    by simp
  have "\<forall>item\<in>set ?items. \<exists>r\<in>set [window 0 0]. \<exists>response rows row.
              axios_get (mixed_portal r) = Inr response \<and> payload response = Html rows
              \<and> row \<in> set rows \<and> scrape_row row = Some item"
    by (rule R [THEN conjunct2, THEN conjunct1])
  then have c3: "\<exists>response rows row.
        axios_get (mixed_portal (window 0 0)) = Inr response \<and> payload response = Html rows
        \<and> row \<in> set rows \<and> scrape_row row = Some (sample_item ''123456'' (Finite 15000))"
    by simp
  have c1: "chave (sample_item ''123456'' (Finite 15000)) = ''123456''"
    by (simp add: sample_item_def)
  have c4: "\<exists>item. scrape_row ?tr = Some item \<and> chave item = ''123456''"
    by (rule T [THEN conjunct2, THEN conjunct1, THEN mp, OF h2])
  have c5: "regex_match (download_prefix @ ''123456'') = Some ''123456''"
    by (rule T [THEN conjunct2, THEN conjunct2, THEN conjunct1, THEN mp, OF h3])
  have c6: "scrape_row ?tr' = None"
    by (rule T [THEN conjunct2, THEN conjunct2, THEN conjunct2, THEN conjunct2, THEN conjunct1,
          THEN mp, OF h5])
  have c7: "scrape_row ?tr'' = None"
    by (rule T [THEN conjunct2, THEN conjunct2, THEN conjunct2, THEN conjunct2, THEN conjunct2,
          THEN mp, OF h6])
  show ?thesis
    by (intro conjI) (rule mixed_run c1 c2 c3 c4 c5 c6 c7)+
qed

text \<open>
  Only the first download anchor of a row is read. A row with two download anchors, the first
  without digits and the second with the digits \<^verbatim>\<open>123\<close>, has an anchor that matches the
  pattern and yet adds no item.
\<close>

theorem second_anchor_counterexample:
  "''/EmissorNacional/Notas/Download/NFSe/123'' \<in> set (anchors two_anchor_row)
   \<and> regex_match ''/EmissorNacional/Notas/Download/NFSe/123'' = Some ''123''
   \<and> scrape_row two_anchor_row = None
   \<and> buscar_nfse (fixed_zone 0) (\<lambda>req. listing [two_anchor_row]) [''s=1''] (Some 0) (Some 5) =
       ([window 0 0], Inr [])"
proof -
  have "''/EmissorNacional/Notas/Download/NFSe/123'' \<in> set (anchors two_anchor_row)"
    by (simp add: two_anchor_row_def)
  moreover have "regex_match ''/EmissorNacional/Notas/Download/NFSe/123'' = Some ''123''"
    by (simp add: download_prefix_def is_digit_def)
  ultimately show ?thesis
    using scrape_two_anchor_row two_anchor_run by simp
qed

section \<open>The windows of a crawl\<close>






text \<open>
  Nor does it hold across a change of the offset. In the zone of Sao Paulo in 2018, where
  the clocks went from 00:00 to 01:00 on the 4th of November, take the start at 00:00 of the
  6th of October (day 17810) and the end at 00:00 of the 5th of December (day 17870). The end
  of the first window falls on the hour that was skipped and becomes 01:00, and so does every
  date after it: the second window ends on day 17869, the next start is 01:00 of day 17870,
  which is after the end, and day 17870 is never requested.
\<close>

lemma sao_paulo_windows:
  "Day (LocalTime sao_paulo_2018 1538794800000) = 17810
   \<and> TimeWithinDay (LocalTime sao_paulo_2018 1538794800000) = 0
   \<and> Day (LocalTime sao_paulo_2018 1543975200000) = 17870
   \<and> TimeWithinDay (LocalTime sao_paulo_2018 1543975200000) = 0
   \<and> buscar_nfse sao_paulo_2018 empty_portal [''s=1''] (Some 1538794800000) (Some 1543975200000) =
       ([window 17810 17839, window 17840 17869], Inr [])"
  by (simp add: sao_paulo_run)
     (simp add: LocalTime_def Day_def TimeWithinDay_def msPerDay_def sao_paulo_2018_offsets)

text \<open>
  Nor at the end of the range of dates. Ten days before the largest date, the 29th day after
  the start is no date: the end of the window is taken from an invalid date, the request
  carries an invalid end day, and the loop stops there.
\<close>

lemma largest_date_windows:
  "buscar_nfse (fixed_zone 0) empty_portal [''s=1''] (Some 8639999136000000) (Some maxTime) =
     ([\<lparr>cookie = ''s=1'', datainicio = Some 99999990, datafim = None\<rparr>], Inr [])"
  by (simp add: loop_eval fetch_eval empty_portal_def)

text \<open>
  The condition on the time of day is the weakest one: when the local time of day of the
  start is later than that of the end and the days from the start day to the end day are a
  multiple of 30, one window is missing.
\<close>

lemma missing_window_by_time_of_day:
  assumes "data_inicio \<le> data_fim"
    and "- maxTime \<le> data_inicio" and "data_fim \<le> maxTime"
    and "steady z c data_inicio data_fim"
    and "\<forall>k. data_inicio + 30 * int k * msPerDay \<le> data_fim
           \<longrightarrow> data_inicio + 30 * int k * msPerDay + 29 * msPerDay \<le> maxTime"
    and "TimeWithinDay (LocalTime z data_fim) < TimeWithinDay (LocalTime z data_inicio)"
    and "(Day (LocalTime z data_fim) - Day (LocalTime z data_inicio)) mod 30 = 0"
    and "buscar_nfse z portal cookies (Some data_inicio) (Some data_fim) = (issued, Inr items)"
  shows "int (length issued) =
     \<lceil>of_int (Day (LocalTime z data_fim) - Day (LocalTime z data_inicio) + 1) / (30::rat)\<rceil> - 1"
proof -
  let ?s = "data_inicio + c" and ?e = "data_fim + c"
  let ?a = "Day ?s" and ?b = "Day ?e"
  have l: "LocalTime z data_inicio = ?s" "LocalTime z data_fim = ?e"
    using assms(1,4) by (simp_all add: steady_def LocalTime_def)
  have "\<bar>data_inicio\<bar> \<le> maxTime" "\<bar>data_fim\<bar> \<le> maxTime" using assms(1-3) by linarith+
  then have n: "new_Date (Some data_inicio) = Some data_inicio"
    "new_Date (Some data_fim) = Some data_fim"
    by (simp_all add: new_Date_def TimeClip_def)
  have "issued = map (chunk_request z (join ''; '' cookies))
      (chunks z (Some data_inicio) (Some data_fim))"
    using issued_of_complete(1) [OF assms(8)] by (simp only: n)
  also have "chunks z (Some data_inicio) (Some data_fim) =
      map (\<lambda>w. (Some (fst w), Some (snd w))) (steps data_inicio data_fim)"
    using assms(4,2,3,5) by (rule chunks_steady)
  finally have len: "length issued = nat ((data_fim - data_inicio) div (30 * msPerDay) + 1)"
    by (simp add: steps_closed)
  have r: "0 \<le> TimeWithinDay ?e" "TimeWithinDay ?s < msPerDay"
    by (simp_all add: TimeWithinDay_def msPerDay_def)
  have "?e - ?s = msPerDay * (?b - ?a - 1) + (msPerDay + TimeWithinDay ?e - TimeWithinDay ?s)"
    using day_and_time [of ?s] day_and_time [of ?e] by (simp add: algebra_simps)
  moreover have "0 \<le> msPerDay + TimeWithinDay ?e - TimeWithinDay ?s"
    "msPerDay + TimeWithinDay ?e - TimeWithinDay ?s < msPerDay"
    using assms(6) r unfolding l by simp_all
  ultimately have "(?e - ?s) div msPerDay = ?b - ?a - 1"
    by (rule int_div_pos_eq)
  moreover have "(?e - ?s) div (30 * msPerDay) = (?e - ?s) div msPerDay div 30"
    by (simp add: msPerDay_def div_mult2_eq [symmetric])
  ultimately have d: "(data_fim - data_inicio) div (30 * msPerDay) = (?b - ?a - 1) div 30"
    by simp
  have m: "(?b - ?a) mod 30 = 0" using assms(7) unfolding l .
  have "0 \<le> data_fim - data_inicio" using assms(1) by simp
  then have "0 \<le> (data_fim - data_inicio) div (30 * msPerDay)"
    by (simp add: msPerDay_def pos_imp_zdiv_nonneg_iff)
  then have nn: "0 \<le> (?b - ?a - 1) div 30" by (simp only: d)
  have ab: "?a \<le> ?b" using assms(1) by (simp add: Day_mono)
  have q: "(?b - ?a - 1) div 30 = (?b - ?a) div 30 - 1"
  proof -
    define x where "x = ?b - ?a"
    have "x mod 30 = 0" using m by (simp add: x_def)
    then have "x - 1 = 30 * (x div 30 - 1) + 29" by presburger
    moreover have "(0::int) \<le> 29" "(29::int) < 30" by simp_all
    ultimately have "(x - 1) div 30 = x div 30 - 1" by (rule int_div_pos_eq)
    then show ?thesis by (simp add: x_def)
  qed
  have "int (length issued) = (?b - ?a) div 30"
    using len nn unfolding d q by simp
  moreover have "\<lceil>of_int (?b - ?a + 1) / (30::rat)\<rceil> = (?b - ?a) div 30 + 1"
    using day_windows_length [OF ab] ab by (simp add: pos_imp_zdiv_nonneg_iff)
  ultimately show ?thesis unfolding l by simp
qed

section \<open>The nested path extractor\<close>

lemma get_property_field:
  assumes "field_name inherited part" and "\<not> absent v"
  shows "get_property inherited v part = Inr (index_field v part)"
proof (cases v)
  case (JObject kvs)
  then show ?thesis using assms
    by (simp add: get_property_def field_name_def inherited_member_def split: option.splits)
qed (use assms in \<open>simp_all add: get_property_def field_name_def inherited_member_def absent_def\<close>)

lemma unwrap_then_index_absent: "absent v \<Longrightarrow> unwrap_then_index v names = JNull"
  by (cases names) (auto simp: absent_def)

lemma for_parts_rule:
  assumes "list_all (field_name inherited) parts" and "first_elements_present node parts"
  shows "for_parts inherited node parts = Returned JNull \<and> unwrap_then_index node parts = JNull
       \<or> (\<exists>c. for_parts inherited node parts = Completed c
              \<and> unwrap_then_index node parts = (if absent (unwrap c) then JNull else unwrap c))"
  using assms
proof (induction parts arbitrary: node)
  case Nil
  then show ?case by simp
next
  case (Cons part parts)
  show ?case
  proof (cases "absent node")
    case True
    then show ?thesis by (auto simp: absent_def)
  next
    case False
    then have u: "\<not> absent (unwrap node)"
      and f: "first_elements_present (index_field (unwrap node) part) parts"
      using Cons.prems(2) by simp_all
    have g: "get_property inherited (unwrap node) part = Inr (index_field (unwrap node) part)"
      using Cons.prems(1) u by (simp add: get_property_field)
    have "list_all (field_name inherited) parts" using Cons.prems(1) by simp
    then show ?thesis
      using Cons.IH [OF _ f] False u g by (simp add: absent_def)
  qed
qed

lemma split_dots_not_empty: "split_dots path \<noteq> []"
  by (induction path) (auto split: list.splits)

lemma getNested_rule:
  assumes "path \<noteq> []" and "list_all (field_name inherited) (split_dots path)"
    and "first_elements_present obj (split_dots path)"
  shows "getNested inherited obj path = Inr (unwrap_then_index obj (split_dots path))"
proof (cases "falsy obj")
  case True
  obtain p ps where ps: "split_dots path = p # ps"
    using split_dots_not_empty [of path] by (cases "split_dots path") simp_all
  have "unwrap_then_index obj (p # ps) = JNull"
  proof (cases obj)
    case (JString s)
    then show ?thesis using True by (simp add: absent_def unwrap_then_index_absent)
  next
    case (JNumber n)
    then show ?thesis using True by (simp add: absent_def unwrap_then_index_absent)
  next
    case (JBool b)
    then show ?thesis using True by (simp add: absent_def unwrap_then_index_absent)
  qed (use True in \<open>simp_all add: absent_def\<close>)
  then show ?thesis using True by (simp add: getNested_def ps)
next
  case False
  show ?thesis
    using for_parts_rule [OF assms(2,3)] False assms(1)
    by (auto simp: getNested_def Let_def absent_def)
qed

lemma unwrap_parsed: "parsed v \<Longrightarrow> parsed (unwrap v)"
  by (cases v rule: unwrap.cases) simp_all

lemma index_field_parsed: "parsed v \<Longrightarrow> parsed (index_field v name) \<or> absent (index_field v name)"
proof (cases v)
  case (JObject kvs)
  assume p: "parsed v"
  show ?thesis
  proof (cases "map_of kvs name")
    case None
    then show ?thesis using JObject by (simp add: absent_def)
  next
    case (Some w)
    then have "(name, w) \<in> set kvs" by (rule map_of_SomeD)
    then have "parsed w" using p JObject by (auto simp: list_all_iff)
    then show ?thesis using JObject Some by simp
  qed
qed (simp_all add: absent_def)

lemma parsed_first_elements_present:
  "parsed node \<or> absent node \<Longrightarrow> first_elements_present node names"
proof (induction names arbitrary: node)
  case Nil
  then show ?case by simp
next
  case (Cons name names)
  show ?case
  proof (cases "absent node")
    case True
    then show ?thesis by simp
  next
    case False
    then have p: "parsed (unwrap node)" using Cons.prems unwrap_parsed by blast
    then have "\<not> absent (unwrap node)" by (auto simp: absent_def)
    moreover have "first_elements_present (index_field (unwrap node) name) names"
      using Cons.IH index_field_parsed [OF p] by blast
    ultimately show ?thesis by simp
  qed
qed

text \<open>
  C2. Take a path whose parts are field names, and a tree in which no sequence that the
  traversal indexes is empty or starts with \<^verbatim>\<open>null\<close> or an absent element, as in every tree of
  the XML parser. Then \<^verbatim>\<open>getNested\<close> returns, and what it returns follows the
  unwrap-then-index rule: a tree that is \<^verbatim>\<open>null\<close>, absent, \<^verbatim>\<open>false\<close>, the empty text or zero
  gives \<^verbatim>\<open>null\<close> whatever the path; for any other tree the empty path gives the whole tree; for a
  path that is not empty each step returns \<^verbatim>\<open>null\<close> from the call when the current node is
  \<^verbatim>\<open>null\<close> or absent, replaces a sequence by its first element and indexes the node by the next
  field name, and after the last part a sequence is again replaced by its first element. The
  four calls \<^verbatim>\<open>get(null, "a.b")\<close>, \<^verbatim>\<open>get({}, "a.b")\<close>, \<^verbatim>\<open>get({a:[{}]}, "a.b")\<close> and
  \<^verbatim>\<open>get({a:[{b:"x"}]}, "a.b")\<close> give \<^verbatim>\<open>null\<close>, \<^verbatim>\<open>null\<close>, \<^verbatim>\<open>null\<close> and \<^verbatim>\<open>"x"\<close>, the second and the
  third when \<^verbatim>\<open>a\<close> and \<^verbatim>\<open>b\<close> name no inherited member.
\<close>

theorem getNested_unwrap_then_index:
  "(falsy obj \<longrightarrow> getNested inherited obj path = Inr JNull)
   \<and> (\<not> falsy whole \<longrightarrow> getNested inherited whole [] = Inr whole)
   \<and> (route \<noteq> [] \<and> list_all (field_name inherited) (split_dots route)
        \<and> first_elements_present node (split_dots route)
      \<longrightarrow> getNested inherited node route = Inr (unwrap_then_index node (split_dots route)))
   \<and> (dotted \<noteq> [] \<and> list_all (field_name inherited) (split_dots dotted) \<and> parsed tree
      \<longrightarrow> getNested inherited tree dotted = Inr (unwrap_then_index tree (split_dots dotted)))
   \<and> getNested inherited JNull ''a.b'' = Inr JNull
   \<and> (map_of inherited ''a'' = None \<longrightarrow> getNested inherited (JObject []) ''a.b'' = Inr JNull)
   \<and> (map_of inherited ''b'' = None
      \<longrightarrow> getNested inherited (JObject [(''a'', JArray [JObject []])]) ''a.b'' = Inr JNull)
   \<and> getNested inherited (JObject [(''a'', JArray [JObject [(''b'', JString ''x'')]])]) ''a.b''
       = Inr (JString ''x'')"
proof (intro conjI impI)
  assume "falsy obj"
  then show "getNested inherited obj path = Inr JNull" by (simp add: getNested_def)
next
  assume "\<not> falsy whole"
  then show "getNested inherited whole [] = Inr whole" by (simp add: getNested_def)
next
  assume "route \<noteq> [] \<and> list_all (field_name inherited) (split_dots route)
        \<and> first_elements_present node (split_dots route)"
  then show "getNested inherited node route = Inr (unwrap_then_index node (split_dots route))"
    using getNested_rule by blast
next
  assume "dotted \<noteq> [] \<and> list_all (field_name inherited) (split_dots dotted) \<and> parsed tree"
  then show "getNested inherited tree dotted = Inr (unwrap_then_index tree (split_dots dotted))"
    using getNested_rule parsed_first_elements_present by blast
next
  show "getNested inherited JNull ''a.b'' = Inr JNull" by (simp add: getNested_def)
next
  assume "map_of inherited ''a'' = None"
  then show "getNested inherited (JObject []) ''a.b'' = Inr JNull"
    by (simp add: getNested_def get_property_def inherited_member_def)
next
  assume "map_of inherited ''b'' = None"
  then show "getNested inherited (JObject [(''a'', JArray [JObject []])]) ''a.b'' = Inr JNull"
    by (simp add: getNested_def get_property_def inherited_member_def)
next
  show "getNested inherited (JObject [(''a'', JArray [JObject [(''b'', JString ''x'')]])]) ''a.b''
       = Inr (JString ''x'')"
    by (simp add: getNested_def get_property_def)
qed

lemma sample_field_names:
  "field_name sample_prototypes ''a''" "field_name sample_prototypes ''b''"
  by (simp_all add: field_name_def sample_prototypes_def array_index_def is_digit_def)

theorem getNested_unwrap_then_index_witness:
  "getNested sample_prototypes JNull ''a.b'' = Inr JNull
   \<and> getNested sample_prototypes (JObject []) [] = Inr (JObject [])
   \<and> getNested sample_prototypes (JObject [(''a'', JNull)]) ''a.b'' = Inr JNull
   \<and> getNested sample_prototypes (JObject [(''a'', JArray [JObject [(''b'', JString ''x'')]])])
       ''a.b'' = Inr (JString ''x'')
   \<and> getNested sample_prototypes (JObject []) ''a.b'' = Inr JNull
   \<and> getNested sample_prototypes (JObject [(''a'', JArray [JObject []])]) ''a.b'' = Inr JNull"
proof -
  let ?tree = "JObject [(''a'', JArray [JObject [(''b'', JString ''x'')]])]"
  let ?node = "JObject [(''a'', JNull)]"
  note T = getNested_unwrap_then_index [of JNull sample_prototypes "''a.b''" "JObject []"
      "''a.b''" ?node "''a.b''" ?tree]
  have names: "list_all (field_name sample_prototypes) (split_dots ''a.b'')"
    by (simp add: sample_field_names)
  have h1: "falsy JNull" by simp
  have h2: "\<not> falsy (JObject [])" by simp
  have h3: "''a.b'' \<noteq> [] \<and> list_all (field_name sample_prototypes) (split_dots ''a.b'')
        \<and> first_elements_present ?node (split_dots ''a.b'')"
    using names by (simp add: absent_def)
  have h4: "''a.b'' \<noteq> [] \<and> list_all (field_name sample_prototypes) (split_dots ''a.b'')
        \<and> parsed ?tree"
    using names by simp
  have h6: "map_of sample_prototypes ''a'' = None" by (simp add: sample_prototypes_def)
  have h7: "map_of sample_prototypes ''b'' = None" by (simp add: sample_prototypes_def)
  have c1: "getNested sample_prototypes JNull ''a.b'' = Inr JNull"
    by (rule T [THEN conjunct1, THEN mp, OF h1])
  have c2: "getNested sample_prototypes (JObject []) [] = Inr (JObject [])"
    by (rule T [THEN conjunct2, THEN conjunct1, THEN mp, OF h2])
  have "getNested sample_prototypes ?node ''a.b'' =
      Inr (unwrap_then_index ?node (split_dots ''a.b''))"
    by (rule T [THEN conjunct2, THEN conjunct2, THEN conjunct1, THEN mp, OF h3])
  then have c3: "getNested sample_prototypes ?node ''a.b'' = Inr JNull"
    by (simp add: absent_def)
  have "getNested sample_prototypes ?tree ''a.b'' =
      Inr (unwrap_then_index ?tree (split_dots ''a.b''))"
    by (rule T [THEN conjunct2, THEN conjunct2, THEN conjunct2, THEN conjunct1, THEN mp, OF h4])
  then have c4: "getNested sample_prototypes ?tree ''a.b'' = Inr (JString ''x'')"
    by (simp add: absent_def)
  have c6: "getNested sample_prototypes (JObject []) ''a.b'' = Inr JNull"
    by (rule T [THEN conjunct2, THEN conjunct2, THEN conjunct2, THEN conjunct2, THEN conjunct2,
          THEN conjunct1, THEN mp, OF h6])
  have c7: "getNested sample_prototypes (JObject [(''a'', JArray [JObject []])]) ''a.b'' = Inr JNull"
    by (rule T [THEN conjunct2, THEN conjunct2, THEN conjunct2, THEN conjunct2, THEN conjunct2,
          THEN conjunct2, THEN conjunct1, THEN mp, OF h7])
  show ?thesis
    by (intro conjI) (rule c1 c2 c3 c4 c6 c7)+
qed

text \<open>
  The empty path does not give the whole tree when the tree is the empty text: the call
  gives \<^verbatim>\<open>null\<close>.
\<close>

theorem getNested_empty_text_counterexample:
  "getNested sample_prototypes (JString []) [] = Inr JNull
   \<and> getNested sample_prototypes (JString []) [] \<noteq> Inr (JString [])"
  by (simp add: getNested_def)

text \<open>
  After a sequence is replaced by its first element the node is indexed without a further
  test: an empty sequence, or a sequence that starts with \<^verbatim>\<open>null\<close>, that the traversal
  indexes makes the property read throw.
\<close>

lemma getNested_empty_sequence_throws:
  "getNested inherited (JObject [(''a'', JArray [])]) ''a.b''
     = Inl (Error ''TypeError: Cannot read properties of undefined'')
   \<and> getNested inherited (JObject [(''a'', JArray [JNull])]) ''a.b''
       = Inl (Error ''TypeError: Cannot read properties of null'')"
  by (simp add: getNested_def get_property_def)

text \<open>
  A part that names a member of a text, of a sequence or of a prototype reads that member:
  the length of a text, one of its characters, a method; and where the member is an accessor
  that throws, so does the call.
\<close>

lemma getNested_members:
  "getNested inherited (JObject [(''a'', JArray [JString ''abc''])]) ''a.length''
     = Inr (JNumber 3)
   \<and> getNested inherited (JObject [(''a'', JArray [JString ''abc''])]) ''a.0''
     = Inr (JString ''a'')
   \<and> getNested sample_prototypes (JObject []) ''toString''
     = Inr (JOther ''Object.prototype.toString'')
   \<and> getNested sample_prototypes (JObject []) ''constructor.caller''
     = Inl (Error ''TypeError: restricted function property'')"
  by (simp add: getNested_def get_property_def inherited_member_def sample_prototypes_def
      array_index_def is_digit_def decimal_def digit_value_def)

section \<open>Properties of the authenticator\<close>

lemma login_cases:
  "login endpoint cert password =
     (case endpoint cert password of
        NetworkFailure msg \<Rightarrow> Inl (ApplicationException (''Falha ao realizar login: '' @ msg))
      | Response r \<Rightarrow>
          if \<not> validateStatus (status_code r)
          then Inl (ApplicationException
                 (''Falha ao realizar login: '' @ ''Request failed with status code ''
                    @ show_nat (nat (status_code r))))
          else if (\<exists>l. location r = Some l \<and> endsWith l dashboard_path)
          then Inr (case set_cookie r of None \<Rightarrow> [] | Some cookies \<Rightarrow> cookies)
          else Inl (ApplicationException
                 ''Falha ao realizar login: Redirecionamento incorreto ou ausente.''))"
  by (auto simp: login_def axios_get_def endsWith_def dashboard_path_def
      split: http_outcome.splits option.splits)

text \<open>
  C7. \<^verbatim>\<open>login\<close> returns a session exactly when the request is answered with a status from 200
  up to and excluding 400 and a \<^verbatim>\<open>Location\<close> header that ends with the dashboard path, and the
  session is then the \<^verbatim>\<open>Set-Cookie\<close> list, or the empty list when that header is absent. In
  every other case it throws an \<^verbatim>\<open>ApplicationException\<close> whose message is
  \<^verbatim>\<open>Falha ao realizar login: \<close> followed by the cause.
\<close>

theorem login_outcomes:
  "(login endpoint cert password = Inr cookies \<longleftrightarrow>
      (\<exists>r. endpoint cert password = Response r
           \<and> 200 \<le> status_code r \<and> status_code r < 400
           \<and> (\<exists>l. location r = Some l \<and> endsWith l ''/EmissorNacional/Dashboard'')
           \<and> cookies = (case set_cookie r of None \<Rightarrow> [] | Some cs \<Rightarrow> cs)))
   \<and> ((\<exists>session. login endpoint cert password = Inr session)
        \<or> (\<exists>cause. login endpoint cert password =
               Inl (ApplicationException (''Falha ao realizar login: '' @ cause))))
   \<and> (endpoint cert password = Response r0
        \<and> 200 \<le> status_code r0 \<and> status_code r0 < 400
        \<and> location r0 = Some l0 \<and> endsWith l0 ''/EmissorNacional/Dashboard''
        \<and> set_cookie r0 = None
      \<longrightarrow> login endpoint cert password = Inr [])"
proof (intro conjI)
  show "login endpoint cert password = Inr cookies \<longleftrightarrow>
      (\<exists>r. endpoint cert password = Response r
           \<and> 200 \<le> status_code r \<and> status_code r < 400
           \<and> (\<exists>l. location r = Some l \<and> endsWith l ''/EmissorNacional/Dashboard'')
           \<and> cookies = (case set_cookie r of None \<Rightarrow> [] | Some cs \<Rightarrow> cs))"
    by (cases "endpoint cert password")
       (auto simp: login_cases validateStatus_def dashboard_path_def)
  show "(\<exists>session. login endpoint cert password = Inr session)
        \<or> (\<exists>cause. login endpoint cert password =
               Inl (ApplicationException (''Falha ao realizar login: '' @ cause)))"
    by (cases "endpoint cert password") (simp_all add: login_cases)
  show "endpoint cert password = Response r0
        \<and> 200 \<le> status_code r0 \<and> status_code r0 < 400
        \<and> location r0 = Some l0 \<and> endsWith l0 ''/EmissorNacional/Dashboard''
        \<and> set_cookie r0 = None
      \<longrightarrow> login endpoint cert password = Inr []"
    by (simp add: login_cases validateStatus_def dashboard_path_def)
qed

theorem login_outcomes_witness:
  "login dashboard_endpoint ''pfx'' ''secret'' = Inr []
   \<and> login login_endpoint ''pfx'' ''secret''
       = Inl (ApplicationException ''Falha ao realizar login: Redirecionamento incorreto ou ausente.'')"
proof -
  let ?r = "\<lparr> status_code = 302, responseUrl = None,
              location = Some ''/EmissorNacional/Dashboard'',
              set_cookie = None, payload = Html [] \<rparr>"
  have "dashboard_endpoint ''pfx'' ''secret'' = Response ?r
        \<and> 200 \<le> status_code ?r \<and> status_code ?r < 400
        \<and> location ?r = Some ''/EmissorNacional/Dashboard''
        \<and> endsWith ''/EmissorNacional/Dashboard'' ''/EmissorNacional/Dashboard''
        \<and> set_cookie ?r = None"
    by (simp add: dashboard_endpoint_def redirect_def endsWith_def)
  then have "login dashboard_endpoint ''pfx'' ''secret'' = Inr []"
    using login_outcomes [of dashboard_endpoint "''pfx''" "''secret''" "[]" ?r
        "''/EmissorNacional/Dashboard''"]
    by blast
  moreover have "login login_endpoint ''pfx'' ''secret''
       = Inl (ApplicationException ''Falha ao realizar login: Redirecionamento incorreto ou ausente.'')"
    by (simp add: login_cases login_endpoint_def redirect_def validateStatus_def endsWith_def
        dashboard_path_def)
  ultimately show ?thesis by simp
qed

section \<open>The amount of a row\<close>








section \<open>The automatic login\<close>

lemmas ensure_eval = ensureAuthenticated_def record_event_def sample_config_def login_def
  axios_get_def validateStatus_def endsWith_def dashboard_path_def redirect_def Let_def

lemma ensure_cached:
  "cachedCookies s = Some cookies \<Longrightarrow>
   ensureAuthenticated cfg s = (Inr cookies, record_event Ensure s)"
  by (simp add: ensureAuthenticated_def record_event_def Let_def)

lemma ensure_uncached:
  assumes "cachedCookies s = None" and "ensureAuthenticated cfg s = (Inr cookies, s')"
  shows "s' = \<lparr> cachedCookies = Some cookies, events = events s @ [Ensure, Login] \<rparr>"
  using assms
  by (auto simp: ensureAuthenticated_def record_event_def Let_def
      split: option.splits if_splits sum.splits)

lemma ensure_events:
  assumes "ensureAuthenticated cfg s = (Inr cookies, s')"
  shows "\<exists>acq. events s' = events s @ acq \<and> (acq = [Ensure] \<or> acq = [Ensure, Login])"
proof (cases "cachedCookies s")
  case None
  then show ?thesis using ensure_uncached [OF None assms] by simp
next
  case (Some c)
  then show ?thesis using assms by (auto simp: ensure_cached record_event_def)
qed

text \<open>
  C6. \<^verbatim>\<open>ensureAuthenticated\<close> stores the result of \<^verbatim>\<open>login\<close> in \<^verbatim>\<open>cachedCookies\<close> before it tests
  that the session is not empty. When the login yields no cookie the first call throws the
  \<^verbatim>\<open>ApplicationException\<close>, but it leaves the empty session in the cache, and the next call
  returns that empty session instead of failing again.
\<close>

theorem ensure_caches_empty_session:
  "ensureAuthenticated (sample_config no_cookie_endpoint) fresh_process =
     (Inl (ApplicationException no_cookie_message),
      \<lparr> cachedCookies = Some [], events = [Ensure, Login] \<rparr>)
   \<and> ensureAuthenticated (sample_config no_cookie_endpoint)
       \<lparr> cachedCookies = Some [], events = [Ensure, Login] \<rparr> =
     (Inr [], \<lparr> cachedCookies = Some [], events = [Ensure, Login, Ensure] \<rparr>)"
  by (simp add: ensure_eval no_cookie_endpoint_def fresh_process_def no_cookie_message_def)

text \<open>
  C5. Let the first \<^verbatim>\<open>ensureAuthenticated\<close> give a session, the action raise
  \<^verbatim>\<open>UnauthenticatedSessionException\<close> on it, and the \<^verbatim>\<open>ensureAuthenticated\<close> that follows the
  clearing of the cache give a fresh session. Then \<^verbatim>\<open>withAutoLogin\<close> ends as the second
  attempt of the action ends, whatever its outcome: \<^verbatim>\<open>ensureAuthenticated\<close> has been called
  exactly twice, the second time through a login (so that a process that starts without a
  cached session logs in exactly twice), and the action has been attempted exactly twice,
  with the first session and then with the fresh one.
\<close>

theorem withAutoLogin_retries_once:
  assumes "ensureAuthenticated cfg s0 = (Inr cookies, s1)"
    and "attempt action cookies s1 = (Inl UnauthenticatedSessionException, s2)"
    and "ensureAuthenticated cfg (s2\<lparr> cachedCookies := None \<rparr>) = (Inr freshCookies, s3)"
    and "attempt action freshCookies s3 = (outcome, s4)"
  shows "withAutoLogin cfg action s0 = (outcome, s4)
         \<and> outcome = action (Suc (length (filter is_Action (events s0)))) freshCookies
         \<and> events s4 =
             events s0 @ (if cachedCookies s0 = None then [Ensure, Login] else [Ensure])
               @ [Action cookies, Ensure, Login, Action freshCookies]
         \<and> length (filter (\<lambda>ev. ev = Ensure) (events s4)) =
             length (filter (\<lambda>ev. ev = Ensure) (events s0)) + 2
         \<and> length (filter is_Action (events s4)) = length (filter is_Action (events s0)) + 2
         \<and> cachedCookies s4 = Some freshCookies"
proof -
  let ?acq = "if cachedCookies s0 = None then [Ensure, Login] else [Ensure]"
  have ev1: "events s1 = events s0 @ ?acq"
  proof (cases "cachedCookies s0")
    case None
    then show ?thesis using ensure_uncached [OF None assms(1)] by simp
  next
    case (Some c)
    then show ?thesis using assms(1) by (auto simp: ensure_cached record_event_def)
  qed
  have s2: "s2 = record_event (Action cookies) s1"
    using assms(2) by (simp add: attempt_def)
  have s3: "s3 = \<lparr> cachedCookies = Some freshCookies, events = events s2 @ [Ensure, Login] \<rparr>"
    using ensure_uncached [OF _ assms(3)] by simp
  have s4: "s4 = record_event (Action freshCookies) s3"
    and out: "outcome = action (length (filter is_Action (events s3))) freshCookies"
    using assms(4) by (simp_all add: attempt_def)
  have ev4: "events s4 = events s0 @ ?acq @ [Action cookies, Ensure, Login, Action freshCookies]"
    by (simp add: s4 s3 s2 ev1 record_event_def)
  have run: "withAutoLogin cfg action s0 = (outcome, s4)"
    using assms by (simp add: withAutoLogin_def)
  have n3: "length (filter is_Action (events s3)) = Suc (length (filter is_Action (events s0)))"
    by (simp add: s3 s2 ev1 record_event_def)
  have "length (filter (\<lambda>ev. ev = Ensure) (events s4)) =
          length (filter (\<lambda>ev. ev = Ensure) (events s0)) + 2"
    by (simp add: ev4)
  moreover have "length (filter is_Action (events s4)) = length (filter is_Action (events s0)) + 2"
    by (simp add: ev4)
  moreover have "cachedCookies s4 = Some freshCookies"
    by (simp add: s4 s3 record_event_def)
  ultimately show ?thesis using run out n3 ev4 by simp
qed

theorem withAutoLogin_retries_once_witness:
  "withAutoLogin (sample_config cookie_endpoint) expiring_action fresh_process =
     (Inl UnauthenticatedSessionException,
      \<lparr> cachedCookies = Some [''s=2''],
        events = [Ensure, Login, Action [''s=1''], Ensure, Login, Action [''s=2'']] \<rparr>)"
proof -
  let ?cfg = "sample_config cookie_endpoint"
  let ?s1 = "\<lparr> cachedCookies = Some [''s=1''], events = [Ensure, Login] \<rparr>"
  let ?s2 = "\<lparr> cachedCookies = Some [''s=1''], events = [Ensure, Login, Action [''s=1'']] \<rparr>"
  let ?s3 = "\<lparr> cachedCookies = Some [''s=2''],
               events = [Ensure, Login, Action [''s=1''], Ensure, Login] \<rparr>"
  let ?s4 = "\<lparr> cachedCookies = Some [''s=2''],
               events = [Ensure, Login, Action [''s=1''], Ensure, Login, Action [''s=2'']] \<rparr>"
  have h1: "ensureAuthenticated ?cfg fresh_process = (Inr [''s=1''], ?s1)"
    by (simp add: ensure_eval cookie_endpoint_def fresh_process_def)
  have h2: "attempt expiring_action [''s=1''] ?s1 = (Inl UnauthenticatedSessionException, ?s2)"
    by (simp add: attempt_def expiring_action_def record_event_def)
  have h3: "ensureAuthenticated ?cfg (?s2\<lparr> cachedCookies := None \<rparr>) = (Inr [''s=2''], ?s3)"
    by (simp add: ensure_eval cookie_endpoint_def)
  have h4: "attempt expiring_action [''s=2''] ?s3 = (Inl UnauthenticatedSessionException, ?s4)"
    by (simp add: attempt_def expiring_action_def record_event_def)
  show ?thesis
    using withAutoLogin_retries_once [OF h1 h2 h3 h4] by blast
qed

text \<open>The other ways through \<^verbatim>\<open>withAutoLogin\<close>.\<close>

lemma withAutoLogin_no_session:
  "ensureAuthenticated cfg s0 = (Inl e, s1) \<Longrightarrow> withAutoLogin cfg action s0 = (Inl e, s1)"
  by (simp add: withAutoLogin_def)

lemma withAutoLogin_first_attempt:
  assumes "ensureAuthenticated cfg s0 = (Inr cookies, s1)"
    and "attempt action cookies s1 = (outcome, s2)"
    and "outcome \<noteq> Inl UnauthenticatedSessionException"
  shows "withAutoLogin cfg action s0 = (outcome, s2)"
  using assms by (cases outcome) (simp_all add: withAutoLogin_def)

lemma withAutoLogin_login_fails:
  assumes "ensureAuthenticated cfg s0 = (Inr cookies, s1)"
    and "attempt action cookies s1 = (Inl UnauthenticatedSessionException, s2)"
    and "ensureAuthenticated cfg (s2\<lparr> cachedCookies := None \<rparr>) = (Inl e, s3)"
  shows "withAutoLogin cfg action s0 = (Inl e, s3)"
  using assms by (simp add: withAutoLogin_def)

end
